theory Spec2Isabelle
  imports Main
begin

section \<open>Python values\<close>

text \<open>
  The values that travel through \<open>views.py\<close> as parsed JSON: the result of
  \<open>response.json()\<close> and \<open>json.loads\<close>, the argument of \<open>json.dumps\<close>, and the
  payload of a \<open>Response\<close>. Python's \<open>None\<close> is \<open>JNull\<close>. A \<open>dict\<close> is an
  association list in insertion order. Numbers are integers (floats are outside
  the model: a text with a fraction or an exponent does not parse); strings are
  lists of 8-bit characters.
\<close>

datatype json =
    JNull
  | JBool bool
  | JInt int
  | JString string
  | JArray "json list"
  | JObject "(string \<times> json) list"

datatype error =
    RequestAIServerError
  | ValidationError
  | NotAuthenticated
  | PermissionDenied
  | Http404
  | DoesNotExist
  | MultipleObjectsReturned
  | JSONDecodeError
  | KeyError
  | IndexError
  | TypeError
  | AttributeError
  | UnboundLocalError
  | ConnectionError

subsection \<open>\<open>json.dumps\<close>\<close>

text \<open>
  The encoder with its default settings: \<open>ensure_ascii\<close>, separators
  \<open>", "\<close> and \<open>": "\<close>. Inside a string the quote, the backslash and the
  control characters with a short escape are written with it; every other
  character outside the printable ASCII range is written \<open>\u00XX\<close>.
\<close>

definition hex_digit :: "nat \<Rightarrow> char" where
  "hex_digit n = ''0123456789abcdef'' ! n"

definition escape_char :: "char \<Rightarrow> string" where
  "escape_char c =
     (if c = CHR 0x22 then [CHR 0x5C, CHR 0x22]
      else if c = CHR 0x5C then [CHR 0x5C, CHR 0x5C]
      else if c = CHR 0x0A then [CHR 0x5C, CHR ''n'']
      else if c = CHR 0x0D then [CHR 0x5C, CHR ''r'']
      else if c = CHR 0x09 then [CHR 0x5C, CHR ''t'']
      else if c = CHR 0x08 then [CHR 0x5C, CHR ''b'']
      else if c = CHR 0x0C then [CHR 0x5C, CHR ''f'']
      else if 0x20 \<le> (of_char c :: nat) \<and> (of_char c :: nat) \<le> 0x7E then [c]
      else [CHR 0x5C, CHR ''u'', CHR ''0'', CHR ''0'',
            hex_digit (of_char c div 16), hex_digit (of_char c mod 16)])"

definition encode_basestring_ascii :: "string \<Rightarrow> string" where
  "encode_basestring_ascii s = CHR 0x22 # concat (map escape_char s) @ [CHR 0x22]"

fun digits_of :: "nat \<Rightarrow> string" where
  "digits_of n =
     (if n < 10 then [char_of (48 + n)]
      else digits_of (n div 10) @ [char_of (48 + n mod 10)])"

definition int_repr :: "int \<Rightarrow> string" where
  "int_repr i = (if i < 0 then CHR ''-'' # digits_of (nat (- i)) else digits_of (nat i))"

fun join :: "'a list \<Rightarrow> 'a list list \<Rightarrow> 'a list" where
  "join sep [] = []"
| "join sep (x # xs) = x @ concat (map (\<lambda>y. sep @ y) xs)"

fun json_dumps :: "json \<Rightarrow> string" where
  "json_dumps JNull = ''null''"
| "json_dumps (JBool b) = (if b then ''true'' else ''false'')"
| "json_dumps (JInt i) = int_repr i"
| "json_dumps (JString s) = encode_basestring_ascii s"
| "json_dumps (JArray vs) = ''['' @ join '', '' (map json_dumps vs) @ '']''"
| "json_dumps (JObject kvs) =
     ''{'' @ join '', ''
               (map (\<lambda>(k, v). encode_basestring_ascii k @ '': '' @ json_dumps v) kvs) @ ''}''"

subsection \<open>\<open>json.loads\<close>\<close>

text \<open>
  The decoder, in two passes: the text is cut into tokens, and the tokens are
  read by a machine with a stack of open containers. It is strict as Python's
  is: no trailing comma, no control character inside a string, no leading zero,
  nothing after the value but white space. A scanner returns what it read and
  the number of characters it used.
\<close>

datatype token = LBRACE | RBRACE | LBRACKET | RBRACKET | COMMA | COLON
  | TNULL | TTRUE | TFALSE | TINT int | TSTRING string

definition is_digit :: "char \<Rightarrow> bool" where
  "is_digit c = (48 \<le> (of_char c :: nat) \<and> (of_char c :: nat) \<le> 57)"

definition is_ws :: "char \<Rightarrow> bool" where
  "is_ws c = (c = CHR '' '' \<or> c = CHR 0x09 \<or> c = CHR 0x0A \<or> c = CHR 0x0D)"

definition hex_value :: "char \<Rightarrow> nat option" where
  "hex_value c =
     (let n = (of_char c :: nat) in
      if 48 \<le> n \<and> n \<le> 57 then Some (n - 48)
      else if 97 \<le> n \<and> n \<le> 102 then Some (n - 87)
      else if 65 \<le> n \<and> n \<le> 70 then Some (n - 55)
      else None)"

definition unescape :: "char \<Rightarrow> char option" where
  "unescape e =
     (if e = CHR 0x22 then Some (CHR 0x22)
      else if e = CHR 0x5C then Some (CHR 0x5C)
      else if e = CHR ''/'' then Some (CHR ''/'')
      else if e = CHR ''b'' then Some (CHR 0x08)
      else if e = CHR ''f'' then Some (CHR 0x0C)
      else if e = CHR ''n'' then Some (CHR 0x0A)
      else if e = CHR ''r'' then Some (CHR 0x0D)
      else if e = CHR ''t'' then Some (CHR 0x09)
      else None)"

text \<open>A \<open>\uXXXX\<close> escape names a character of the model when it is below 256.\<close>

definition hex4 :: "char \<Rightarrow> char \<Rightarrow> char \<Rightarrow> char \<Rightarrow> char option" where
  "hex4 a b c d =
     (case (hex_value a, hex_value b, hex_value c, hex_value d) of
        (Some x, Some y, Some z, Some w) \<Rightarrow>
          if x = 0 \<and> y = 0 then Some (char_of (16 * z + w)) else None
      | _ \<Rightarrow> None)"

fun scan_string :: "string \<Rightarrow> (string \<times> nat) option" where
  "scan_string [] = None"
| "scan_string (c # cs) =
     (if c = CHR 0x22 then Some ([], 1)
      else if c = CHR 0x5C then
        (case cs of
           [] \<Rightarrow> None
         | e # es \<Rightarrow>
             if e = CHR ''u'' then
               (case es of
                  a # b # x # y # rest \<Rightarrow>
                    (case hex4 a b x y of
                       None \<Rightarrow> None
                     | Some ch \<Rightarrow>
                         (case scan_string rest of
                            None \<Rightarrow> None
                          | Some (s, n) \<Rightarrow> Some (ch # s, n + 6)))
                | _ \<Rightarrow> None)
             else
               (case unescape e of
                  None \<Rightarrow> None
                | Some ch \<Rightarrow>
                    (case scan_string es of
                       None \<Rightarrow> None
                     | Some (s, n) \<Rightarrow> Some (ch # s, n + 2))))
      else if (of_char c :: nat) < 0x20 then None
      else (case scan_string cs of
              None \<Rightarrow> None
            | Some (s, n) \<Rightarrow> Some (c # s, n + 1)))"

definition nat_of_digits :: "string \<Rightarrow> nat" where
  "nat_of_digits ds = foldl (\<lambda>acc c. 10 * acc + (of_char c - 48)) 0 ds"

definition scan_nat :: "string \<Rightarrow> (nat \<times> nat) option" where
  "scan_nat cs =
     (let ds = takeWhile is_digit cs in
      if ds = [] then None
      else if hd ds = CHR ''0'' \<and> length ds > 1 then None
      else Some (nat_of_digits ds, length ds))"

function lex :: "string \<Rightarrow> token list option" where
  "lex [] = Some []"
| "lex (c # cs) =
     (if is_ws c then lex cs
      else if c = CHR ''{'' then map_option ((#) LBRACE) (lex cs)
      else if c = CHR ''}'' then map_option ((#) RBRACE) (lex cs)
      else if c = CHR ''['' then map_option ((#) LBRACKET) (lex cs)
      else if c = CHR '']'' then map_option ((#) RBRACKET) (lex cs)
      else if c = CHR '','' then map_option ((#) COMMA) (lex cs)
      else if c = CHR '':'' then map_option ((#) COLON) (lex cs)
      else if c = CHR 0x22 then
        (case scan_string cs of
           None \<Rightarrow> None
         | Some (s, n) \<Rightarrow> map_option ((#) (TSTRING s)) (lex (drop n cs)))
      else if c = CHR ''-'' then
        (case scan_nat cs of
           None \<Rightarrow> None
         | Some (m, n) \<Rightarrow> map_option ((#) (TINT (- int m))) (lex (drop n cs)))
      else if is_digit c then
        (case scan_nat (c # cs) of
           None \<Rightarrow> None
         | Some (m, n) \<Rightarrow> map_option ((#) (TINT (int m))) (lex (drop (n - 1) cs)))
      else if c = CHR ''n'' \<and> take 3 cs = ''ull'' then map_option ((#) TNULL) (lex (drop 3 cs))
      else if c = CHR ''t'' \<and> take 3 cs = ''rue'' then map_option ((#) TTRUE) (lex (drop 3 cs))
      else if c = CHR ''f'' \<and> take 4 cs = ''alse'' then map_option ((#) TFALSE) (lex (drop 4 cs))
      else None)"
  by pat_completeness auto
termination
  by (relation "measure length") auto

text \<open>
  \<open>d[k] = v\<close> on a dict: a key already present keeps its place and takes the
  new value; a new key goes to the end. The decoder builds an object with it, so
  of two members with one key the later value is kept.
\<close>

fun dict_set :: "(string \<times> 'v) list \<Rightarrow> string \<Rightarrow> 'v \<Rightarrow> (string \<times> 'v) list" where
  "dict_set [] k v = [(k, v)]"
| "dict_set ((k', v') # kvs) k v =
     (if k' = k then (k, v) # kvs else (k', v') # dict_set kvs k v)"

datatype frame = FArr "json list" | FObj "(string \<times> json) list" | FKey string

datatype mode = MValue | MFirstElem | MAfterElem | MFirstKey | MKey | MColon | MAfterMember
  | MDone json

fun put_value :: "json \<Rightarrow> frame list \<Rightarrow> (mode \<times> frame list) option" where
  "put_value v [] = Some (MDone v, [])"
| "put_value v (FArr es # st) = Some (MAfterElem, FArr (es @ [v]) # st)"
| "put_value v (FKey k # FObj ms # st) = Some (MAfterMember, FObj (dict_set ms k v) # st)"
| "put_value v _ = None"

fun close_array :: "frame list \<Rightarrow> (mode \<times> frame list) option" where
  "close_array (FArr es # st) = put_value (JArray es) st"
| "close_array _ = None"

fun close_object :: "frame list \<Rightarrow> (mode \<times> frame list) option" where
  "close_object (FObj ms # st) = put_value (JObject ms) st"
| "close_object _ = None"

fun start_value :: "token \<Rightarrow> frame list \<Rightarrow> (mode \<times> frame list) option" where
  "start_value TNULL st = put_value JNull st"
| "start_value TTRUE st = put_value (JBool True) st"
| "start_value TFALSE st = put_value (JBool False) st"
| "start_value (TINT i) st = put_value (JInt i) st"
| "start_value (TSTRING s) st = put_value (JString s) st"
| "start_value LBRACKET st = Some (MFirstElem, FArr [] # st)"
| "start_value LBRACE st = Some (MFirstKey, FObj [] # st)"
| "start_value _ st = None"

fun parse_step :: "token \<Rightarrow> mode \<times> frame list \<Rightarrow> (mode \<times> frame list) option" where
  "parse_step t (MValue, st) = start_value t st"
| "parse_step t (MFirstElem, st) = (if t = RBRACKET then close_array st else start_value t st)"
| "parse_step t (MAfterElem, st) =
     (if t = COMMA then Some (MValue, st)
      else if t = RBRACKET then close_array st else None)"
| "parse_step t (MFirstKey, st) =
     (case t of TSTRING k \<Rightarrow> Some (MColon, FKey k # st)
      | RBRACE \<Rightarrow> close_object st
      | _ \<Rightarrow> None)"
| "parse_step t (MKey, st) =
     (case t of TSTRING k \<Rightarrow> Some (MColon, FKey k # st) | _ \<Rightarrow> None)"
| "parse_step t (MColon, st) = (if t = COLON then Some (MValue, st) else None)"
| "parse_step t (MAfterMember, st) =
     (if t = COMMA then Some (MKey, st)
      else if t = RBRACE then close_object st else None)"
| "parse_step t (MDone v, st) = None"

fun parse_tokens ::
  "token list \<Rightarrow> (mode \<times> frame list) option \<Rightarrow> (mode \<times> frame list) option" where
  "parse_tokens ts None = None"
| "parse_tokens [] (Some s) = Some s"
| "parse_tokens (t # ts) (Some s) = parse_tokens ts (parse_step t s)"

text \<open>\<open>json.loads\<close>: \<open>None\<close> stands for the \<open>JSONDecodeError\<close>.\<close>

definition json_loads :: "string \<Rightarrow> json option" where
  "json_loads s =
     (case lex s of
        None \<Rightarrow> None
      | Some ts \<Rightarrow>
          (case parse_tokens ts (Some (MValue, [])) of
             Some (MDone v, []) \<Rightarrow> Some v
           | _ \<Rightarrow> None))"

text \<open>
  The token sequence of a value, the values Python can hold (no dict has a key
  twice), and the places of a text where a number may end.
\<close>

fun tokens_of :: "json \<Rightarrow> token list" where
  "tokens_of JNull = [TNULL]"
| "tokens_of (JBool b) = [if b then TTRUE else TFALSE]"
| "tokens_of (JInt i) = [TINT i]"
| "tokens_of (JString s) = [TSTRING s]"
| "tokens_of (JArray vs) = LBRACKET # join [COMMA] (map tokens_of vs) @ [RBRACKET]"
| "tokens_of (JObject kvs) =
     LBRACE # join [COMMA] (map (\<lambda>(k, v). TSTRING k # COLON # tokens_of v) kvs) @ [RBRACE]"

fun wf_json :: "json \<Rightarrow> bool" where
  "wf_json (JArray vs) = (\<forall>v \<in> set vs. wf_json v)"
| "wf_json (JObject kvs) = (distinct (map fst kvs) \<and> (\<forall>(k, v) \<in> set kvs. wf_json v))"
| "wf_json _ = True"



definition value_mode :: "mode \<Rightarrow> bool" where
  "value_mode m = (m = MValue \<or> m = MFirstElem)"

definition delimited :: "string \<Rightarrow> bool" where
  "delimited rest = (case rest of [] \<Rightarrow> True | c # _ \<Rightarrow> \<not> is_digit c)"

subsection \<open>Operations on parsed values\<close>

text \<open>
  \<open>d.get(k)\<close>, \<open>d.pop(k)\<close> and \<open>x[i]\<close> as Python runs them on whatever the
  parsed text turned out to be: a dict answers; a list has no \<open>get\<close> and its
  \<open>pop\<close> wants an integer; the other values have neither method; indexing
  works on a list and on a string, finds no integer key in a dict, and is a type
  error elsewhere.
\<close>

definition py_get :: "json \<Rightarrow> string \<Rightarrow> error + json" where
  "py_get d k =
     (case d of
        JObject kvs \<Rightarrow> (case map_of kvs k of None \<Rightarrow> Inr JNull | Some v \<Rightarrow> Inr v)
      | _ \<Rightarrow> Inl AttributeError)"

definition py_pop :: "json \<Rightarrow> string \<Rightarrow> error + (json \<times> json)" where
  "py_pop d k =
     (case d of
        JObject kvs \<Rightarrow>
          (case map_of kvs k of
             None \<Rightarrow> Inl KeyError
           | Some v \<Rightarrow> Inr (v, JObject (filter (\<lambda>kv. fst kv \<noteq> k) kvs)))
      | JArray vs \<Rightarrow> Inl TypeError
      | _ \<Rightarrow> Inl AttributeError)"

definition py_index :: "json \<Rightarrow> nat \<Rightarrow> error + json" where
  "py_index x i =
     (case x of
        JArray vs \<Rightarrow> if i < length vs then Inr (vs ! i) else Inl IndexError
      | JString s \<Rightarrow> if i < length s then Inr (JString [s ! i]) else Inl IndexError
      | JObject kvs \<Rightarrow> Inl KeyError
      | _ \<Rightarrow> Inl TypeError)"

section \<open>The models\<close>

datatype Status = DRAFT | FINISHED

record User =
  user_pk :: nat
  nickname :: string

record Novel =
  novel_pk :: nat
  author :: nat
  title :: string
  genre :: int
  status :: Status
  prompt :: string
  cover_img :: string
  original_cover_img :: string

record NovelContent =
  content_pk :: nat
  content_novel :: nat
  step :: int
  content :: json
  chosen_query :: json
  query1 :: json
  query2 :: json
  query3 :: json

record NovelContentImage =
  image_pk :: nat
  image_content :: nat
  image_file :: string
  caption :: json

record NovelStats =
  stats_novel :: nat
  hit_count :: int
  like_count :: int
  comment_count :: int

record NovelLike =
  like_novel :: nat
  like_user :: nat

record NovelComment =
  comment_pk :: nat
  comment_novel :: nat
  comment_author :: nat
  comment_text :: string

text \<open>
  The database: one list of rows per table, in insertion order, and the next
  primary key of each table with an auto-increment key.
\<close>

record database =
  Novel_objects :: "Novel list"
  NovelContent_objects :: "NovelContent list"
  NovelContentImage_objects :: "NovelContentImage list"
  NovelStats_objects :: "NovelStats list"
  NovelLike_objects :: "NovelLike list"
  NovelComment_objects :: "NovelComment list"
  next_novel_pk :: nat
  next_content_pk :: nat
  next_image_pk :: nat
  next_comment_pk :: nat

record Response =
  resp_status :: nat
  resp_data :: json

definition HTTP_200_OK :: nat where "HTTP_200_OK = 200"
definition HTTP_201_CREATED :: nat where "HTTP_201_CREATED = 201"
definition HTTP_204_NO_CONTENT :: nat where "HTTP_204_NO_CONTENT = 204"
definition HTTP_408_REQUEST_TIMEOUT :: nat where "HTTP_408_REQUEST_TIMEOUT = 408"
definition HTTP_500_INTERNAL_SERVER_ERROR :: nat where "HTTP_500_INTERNAL_SERVER_ERROR = 500"

section \<open>Object-relational operations\<close>

text \<open>\<open>Novel.objects.get(pk=...)\<close>: the row, or \<open>DoesNotExist\<close>.\<close>

definition Novel_get :: "database \<Rightarrow> nat \<Rightarrow> error + Novel" where
  "Novel_get db pk =
     (case find (\<lambda>n. novel_pk n = pk) (Novel_objects db) of
        None \<Rightarrow> Inl DoesNotExist
      | Some n \<Rightarrow> Inr n)"

text \<open>
  \<open>novel.novelstats\<close>: the one-to-one statistics row of a novel; reading the
  attribute raises when the row is missing.
\<close>

definition Novel_novelstats :: "database \<Rightarrow> Novel \<Rightarrow> error + NovelStats" where
  "Novel_novelstats db n =
     (case find (\<lambda>s. stats_novel s = novel_pk n) (NovelStats_objects db) of
        None \<Rightarrow> Inl DoesNotExist
      | Some s \<Rightarrow> Inr s)"

text \<open>
  \<open>obj.save()\<close> on a row with a primary key: every row with that key is
  overwritten by the object in memory; when there is none, the row is inserted.
\<close>

definition save_row :: "('a \<Rightarrow> nat) \<Rightarrow> 'a \<Rightarrow> 'a list \<Rightarrow> 'a list" where
  "save_row pk obj rows =
     (if \<exists>r \<in> set rows. pk r = pk obj
      then map (\<lambda>r. if pk r = pk obj then obj else r) rows
      else rows @ [obj])"

text \<open>
  \<open>stats.f = F('f') + d; stats.save()\<close>: the object in memory, with the counter
  \<open>f\<close> taken from the stored row and moved by \<open>d\<close>, is written over the row.
\<close>

definition NovelStats_save_F ::
  "(NovelStats \<Rightarrow> int \<Rightarrow> NovelStats) \<Rightarrow> (NovelStats \<Rightarrow> int) \<Rightarrow> int \<Rightarrow>
   NovelStats \<Rightarrow> database \<Rightarrow> database" where
  "NovelStats_save_F set_f get_f d obj db =
     db\<lparr>NovelStats_objects :=
          map (\<lambda>r. if stats_novel r = stats_novel obj then set_f obj (get_f r + d) else r)
              (NovelStats_objects db)\<rparr>"

section \<open>Likes\<close>

text \<open>
  \<open>NovelLikeAPI.perform_create\<close>. The queryset \<open>obj\<close> holds the like rows of
  this user on this novel; it is truthy when it has a row, and \<open>obj.delete()\<close>
  removes all of them. The result is the boolean the method returns.
\<close>

definition NovelLikeAPI_perform_create ::
  "nat \<Rightarrow> User \<Rightarrow> database \<Rightarrow> (error + bool) \<times> database" where
  "NovelLikeAPI_perform_create novel_id user db =
     (case Novel_get db novel_id of
        Inl e \<Rightarrow> (Inl e, db)
      | Inr novel \<Rightarrow>
          let mine = (\<lambda>l. like_novel l = novel_pk novel \<and> like_user l = user_pk user);
              obj = filter mine (NovelLike_objects db)
          in if obj \<noteq> [] then
               let db1 = db\<lparr>NovelLike_objects := filter (\<lambda>l. \<not> mine l) (NovelLike_objects db)\<rparr>
               in (case Novel_novelstats db1 novel of
                     Inl e \<Rightarrow> (Inl e, db1)
                   | Inr st \<Rightarrow>
                       (Inr True,
                        NovelStats_save_F (\<lambda>s v. s\<lparr>like_count := v\<rparr>) like_count (- 1) st db1))
             else
               let db1 = db\<lparr>NovelLike_objects := NovelLike_objects db @
                              [\<lparr>like_novel = novel_pk novel, like_user = user_pk user\<rparr>]\<rparr>
               in (case Novel_novelstats db1 novel of
                     Inl e \<Rightarrow> (Inl e, db1)
                   | Inr st \<Rightarrow>
                       (Inr False,
                        NovelStats_save_F (\<lambda>s v. s\<lparr>like_count := v\<rparr>) like_count 1 st db1)))"

text \<open>
  \<open>NovelLikeAPI.create\<close>. The like serializer is not part of this module; its
  \<open>data\<close> is rendered as the pair of keys it was saved with.
\<close>

definition NovelLikeAPI_create ::
  "nat \<Rightarrow> User \<Rightarrow> database \<Rightarrow> (error + Response) \<times> database" where
  "NovelLikeAPI_create novel_id user db =
     (case NovelLikeAPI_perform_create novel_id user db of
        (Inl e, db') \<Rightarrow> (Inl e, db')
      | (Inr is_created, db') \<Rightarrow>
          if is_created
          then (Inr \<lparr>resp_status = HTTP_201_CREATED,
                     resp_data = JObject [(''novel'', JInt (int novel_id)),
                                          (''user'', JInt (int (user_pk user)))]\<rparr>, db')
          else (Inr \<lparr>resp_status = HTTP_204_NO_CONTENT, resp_data = JObject []\<rparr>, db'))"

text \<open>The like rows of one user on one novel, and the like counter of a novel.\<close>

definition like_rows :: "database \<Rightarrow> nat \<Rightarrow> nat \<Rightarrow> NovelLike list" where
  "like_rows db novel_id uid =
     filter (\<lambda>l. like_novel l = novel_id \<and> like_user l = uid) (NovelLike_objects db)"

definition like_count_of :: "database \<Rightarrow> nat \<Rightarrow> int option" where
  "like_count_of db novel_id =
     map_option like_count (find (\<lambda>s. stats_novel s = novel_id) (NovelStats_objects db))"

section \<open>Settings and the AI server\<close>

text \<open>
  The process environment and the settings the views read: the \<open>DEV\<close> flag of
  \<open>nextnovel.settings\<close>, the \<open>DEMO\<close> variable (absent or a text) and the base
  address \<open>AI_URL\<close>. Two tables of the \<open>Genre\<close> enumeration are used by this
  module and declared elsewhere; they are taken as they come: the value a start
  request's genre text is stored under, and \<open>Genre.get_value_from_label\<close>.
\<close>

record settings =
  DEV :: string
  DEMO :: "string option"
  AI_URL :: string
  genre_field :: "string \<Rightarrow> int option"
  get_value_from_label :: "string \<Rightarrow> int option"

definition start_url :: "settings \<Rightarrow> string" where
  "start_url env = AI_URL env @ ''novel/start''"

definition question_url :: "settings \<Rightarrow> string" where
  "question_url env = AI_URL env @ ''novel/question''"

definition sequence_url :: "settings \<Rightarrow> string" where
  "sequence_url env = AI_URL env @ ''novel/sequence''"

definition end_url :: "settings \<Rightarrow> string" where
  "end_url env = AI_URL env @ ''novel/end''"

definition image_url :: "settings \<Rightarrow> string" where
  "image_url env = AI_URL env @ ''novel/image''"

text \<open>
  A request to the AI server and its answer. The server is outside the program:
  the world holds the answers it is going to give, in order, and the requests
  sent so far. \<open>requests.post\<close> records the request and takes the next answer;
  with no answer left the connection fails.
\<close>

record http_request =
  req_url :: string
  req_files :: "(string \<times> string) list"
  req_data :: "(string \<times> string) list"

record http_response =
  status_code :: nat
  body :: string

record world =
  db_state :: database
  upstream :: "http_response list"
  sent :: "http_request list"

definition requests_post :: "http_request \<Rightarrow> world \<Rightarrow> (error + http_response) \<times> world" where
  "requests_post rq w =
     (case upstream w of
        [] \<Rightarrow> (Inl ConnectionError, w\<lparr>sent := sent w @ [rq]\<rparr>)
      | r # rs \<Rightarrow> (Inr r, w\<lparr>upstream := rs, sent := sent w @ [rq]\<rparr>))"

text \<open>\<open>response.json()\<close>: the body parsed, whatever the status.\<close>

definition json_of_response :: "http_response \<Rightarrow> error + json" where
  "json_of_response r =
     (case json_loads (body r) of None \<Rightarrow> Inl JSONDecodeError | Some v \<Rightarrow> Inr v)"

text \<open>\<open>name.split('/')[-1]\<close>: what follows the last slash.\<close>

definition filename_of :: "string \<Rightarrow> string" where
  "filename_of name = rev (takeWhile (\<lambda>c. c \<noteq> CHR ''/'') (rev name))"

section \<open>Module functions\<close>

text \<open>\<open>retrieve_question_from_ai_json\<close>.\<close>

definition retrieve_question_from_ai_json ::
  "settings \<Rightarrow> json \<Rightarrow> world \<Rightarrow> (error + json) \<times> world" where
  "retrieve_question_from_ai_json env dialog_history w =
     (let data = [(''dialog_history'', json_dumps dialog_history)] in
      case requests_post \<lparr>req_url = question_url env, req_files = [], req_data = data\<rparr> w of
        (Inl e, w') \<Rightarrow> (Inl e, w')
      | (Inr response, w') \<Rightarrow>
          if status_code response \<noteq> 200 then (Inl RequestAIServerError, w')
          else (json_of_response response, w'))"

text \<open>\<open>novel_content_with_query\<close>: the three queries are read with \<open>get\<close>.\<close>

definition novel_content_with_query :: "json \<Rightarrow> NovelContent \<Rightarrow> error + NovelContent" where
  "novel_content_with_query response novel_content =
     (case py_get response ''query1'' of
        Inl e \<Rightarrow> Inl e
      | Inr q1 \<Rightarrow>
          (case py_get response ''query2'' of
             Inl e \<Rightarrow> Inl e
           | Inr q2 \<Rightarrow>
               (case py_get response ''query3'' of
                  Inl e \<Rightarrow> Inl e
                | Inr q3 \<Rightarrow>
                    Inr (novel_content\<lparr>query1 := q1, query2 := q2, query3 := q3\<rparr>))))"

text \<open>
  \<open>NovelContent.objects.create(step=..., novel=...)\<close>: a new row under the
  next key, its other columns empty.
\<close>

definition NovelContent_create :: "int \<Rightarrow> Novel \<Rightarrow> database \<Rightarrow> NovelContent \<times> database" where
  "NovelContent_create s novel d =
     (let row = \<lparr>content_pk = next_content_pk d, content_novel = novel_pk novel, step = s,
                 content = JNull, chosen_query = JNull,
                 query1 = JNull, query2 = JNull, query3 = JNull\<rparr>
      in (row, d\<lparr>NovelContent_objects := NovelContent_objects d @ [row],
                 next_content_pk := Suc (next_content_pk d)\<rparr>))"

text \<open>\<open>get_next_novel_content\<close>.\<close>

definition get_next_novel_content ::
  "NovelContent \<Rightarrow> Novel \<Rightarrow> database \<Rightarrow> NovelContent \<times> database" where
  "get_next_novel_content novel_content novel d =
     (let step' = step novel_content + 1 in NovelContent_create step' novel d)"

definition Novel_save :: "Novel \<Rightarrow> database \<Rightarrow> database" where
  "Novel_save obj d = d\<lparr>Novel_objects := save_row novel_pk obj (Novel_objects d)\<rparr>"

definition NovelContent_save :: "NovelContent \<Rightarrow> database \<Rightarrow> database" where
  "NovelContent_save obj d =
     d\<lparr>NovelContent_objects := save_row content_pk obj (NovelContent_objects d)\<rparr>"

definition NovelContentImage_save :: "NovelContentImage \<Rightarrow> database \<Rightarrow> database" where
  "NovelContentImage_save obj d =
     d\<lparr>NovelContentImage_objects := save_row image_pk obj (NovelContentImage_objects d)\<rparr>"

text \<open>
  \<open>NovelContentImage.objects.bulk_update(images, ["caption"])\<close>: the caption
  column of each row whose key is among the objects is set from its object.
\<close>

definition bulk_update_caption :: "NovelContentImage list \<Rightarrow> database \<Rightarrow> database" where
  "bulk_update_caption objs d =
     d\<lparr>NovelContentImage_objects :=
         map (\<lambda>r. case find (\<lambda>obj. image_pk obj = image_pk r) objs of
                     None \<Rightarrow> r
                   | Some obj \<Rightarrow> r\<lparr>caption := caption obj\<rparr>)
             (NovelContentImage_objects d)\<rparr>"

text \<open>
  The loop \<open>for i in range(len(images)): images[i].caption = caption[i]\<close>,
  from index \<open>i\<close> on; it stops at the first index \<open>caption\<close> cannot answer.
\<close>

fun assign_captions ::
  "NovelContentImage list \<Rightarrow> json \<Rightarrow> nat \<Rightarrow> error + NovelContentImage list" where
  "assign_captions [] caption_list i = Inr []"
| "assign_captions (img # rest) caption_list i =
     (case py_index caption_list i of
        Inl e \<Rightarrow> Inl e
      | Inr c \<Rightarrow>
          (case assign_captions rest caption_list (Suc i) of
             Inl e \<Rightarrow> Inl e
           | Inr rest' \<Rightarrow> Inr (img\<lparr>caption := c\<rparr> # rest')))"

definition genre_dict :: "int \<Rightarrow> json" where
  "genre_dict g =
     (if g = 1 then JString [CHR 0xEB, CHR 0xA1, CHR 0x9C, CHR 0xEB, CHR 0xA7, CHR 0xA8,
                             CHR 0xEC, CHR 0x8A, CHR 0xA4]
      else if g = 4 then JString ''SF''
      else if g = 2 then JString [CHR 0xED, CHR 0x8C, CHR 0x90, CHR 0xED, CHR 0x83, CHR 0x80,
                                  CHR 0xEC, CHR 0xA7, CHR 0x80]
      else if g = 3 then JString [CHR 0xEC, CHR 0xB6, CHR 0x94, CHR 0xEB, CHR 0xA6, CHR 0xAC]
      else if g = 5 then JString [CHR 0xEC, CHR 0x9E, CHR 0x90, CHR 0xEC, CHR 0x9C, CHR 0xA0]
      else JNull)"

definition demo_nickname :: string where
  "demo_nickname = [CHR 0x44, CHR 0x45, CHR 0x4D, CHR 0x4F, CHR 0xEC, CHR 0x9A, CHR 0xA9]"

section \<open>Serializers and permissions\<close>

text \<open>
  The serializers and permission classes are imported by \<open>views.py\<close> and
  declared in other modules. The ones that read a request are written from what
  the specification says of them; the ones that render a row are a plain dict of
  the row's columns, and no property below depends on its shape.
\<close>

definition Status_data :: "Status \<Rightarrow> json" where
  "Status_data s = (case s of DRAFT \<Rightarrow> JString ''DRAFT'' | FINISHED \<Rightarrow> JString ''FINISHED'')"

definition Novel_data :: "Novel \<Rightarrow> json" where
  "Novel_data n =
     JObject [(''id'', JInt (int (novel_pk n))), (''author'', JInt (int (author n))),
              (''title'', JString (title n)), (''genre'', JInt (genre n)),
              (''status'', Status_data (status n)), (''cover_img'', JString (cover_img n)),
              (''original_cover_img'', JString (original_cover_img n))]"

record start_request =
  sr_genre :: string
  sr_images :: "string list"

text \<open>
  Modelled from the spec: \<open>NovelStartSerializer\<close> (validation and \<open>save\<close>) is
  declared in \<open>novels.serializers\<close>, which is not part of the sources. The
  specification: start "validates input via schema rules (exact required
  fields; image count \<open>\<ge>\<close> 1)" and "persists Novel(DRAFT) and
  NovelContent(step=1) with images attached"; the statistics row is "one-to-one
  with Novel, same lifecycle". The images are stored in the order submitted.
\<close>

definition NovelStartSerializer_save ::
  "settings \<Rightarrow> User \<Rightarrow> start_request \<Rightarrow> database \<Rightarrow>
   error + (Novel \<times> NovelContent \<times> NovelContentImage list \<times> database)" where
  "NovelStartSerializer_save env user rq d =
     (case genre_field env (sr_genre rq) of
        None \<Rightarrow> Inl ValidationError
      | Some g \<Rightarrow>
          if sr_images rq = [] then Inl ValidationError
          else
            let novel = \<lparr>novel_pk = next_novel_pk d, author = user_pk user, title = [],
                         genre = g, status = DRAFT, prompt = [], cover_img = [],
                         original_cover_img = []\<rparr>;
                st = \<lparr>stats_novel = novel_pk novel, hit_count = 0, like_count = 0,
                      comment_count = 0\<rparr>;
                novel_content = \<lparr>content_pk = next_content_pk d, content_novel = novel_pk novel,
                                 step = 1, content = JNull, chosen_query = JNull,
                                 query1 = JNull, query2 = JNull, query3 = JNull\<rparr>;
                images = map (\<lambda>(i, name). \<lparr>image_pk = next_image_pk d + i,
                                             image_content = content_pk novel_content,
                                             image_file = name, caption = JNull\<rparr>)
                             (enumerate 0 (sr_images rq))
            in Inr (novel, novel_content, images,
                    d\<lparr>Novel_objects := Novel_objects d @ [novel],
                      NovelStats_objects := NovelStats_objects d @ [st],
                      NovelContent_objects := NovelContent_objects d @ [novel_content],
                      NovelContentImage_objects := NovelContentImage_objects d @ images,
                      next_novel_pk := Suc (next_novel_pk d),
                      next_content_pk := Suc (next_content_pk d),
                      next_image_pk := next_image_pk d + length images\<rparr>))"

record continue_request =
  cr_novel_id :: nat
  cr_step :: int
  cr_query :: string
  cr_image :: string

text \<open>
  Modelled from the spec: \<open>NovelContinueSerializer\<close> is declared in
  \<open>novels.serializers\<close>, which is not part of the sources. The specification:
  the input is the "novel id, target step, the user's chosen query (one of the
  three offered at that step), and exactly one new image"; the serializer
  "validates that the step exists and is awaiting a continuation" (its content
  is still empty). The new image is attached to that step.
\<close>

definition NovelContinueSerializer_save ::
  "continue_request \<Rightarrow> database \<Rightarrow>
   error + (Novel \<times> NovelContent \<times> NovelContentImage \<times> json \<times> database)" where
  "NovelContinueSerializer_save rq d =
     (case find (\<lambda>n. novel_pk n = cr_novel_id rq) (Novel_objects d) of
        None \<Rightarrow> Inl ValidationError
      | Some novel \<Rightarrow>
          (case find (\<lambda>c. content_novel c = novel_pk novel \<and> step c = cr_step rq)
                     (NovelContent_objects d) of
             None \<Rightarrow> Inl ValidationError
           | Some novel_content \<Rightarrow>
               if content novel_content \<noteq> JNull then Inl ValidationError
               else if JString (cr_query rq) \<notin>
                         {query1 novel_content, query2 novel_content, query3 novel_content}
               then Inl ValidationError
               else
                 let img = \<lparr>image_pk = next_image_pk d,
                            image_content = content_pk novel_content,
                            image_file = cr_image rq, caption = JNull\<rparr>
                 in Inr (novel, novel_content, img, JString (cr_query rq),
                         d\<lparr>NovelContentImage_objects := NovelContentImage_objects d @ [img],
                           next_image_pk := Suc (next_image_pk d)\<rparr>)))"

record end_request =
  er_novel_id :: nat
  er_step :: int

text \<open>
  Modelled from the spec: \<open>NovelEndSerializer\<close> is declared in
  \<open>novels.serializers\<close>, which is not part of the sources. The view reads the
  novel row itself from its \<open>novel_id\<close> field; an id with no row is a validation
  error.
\<close>

definition NovelEndSerializer_validate :: "end_request \<Rightarrow> database \<Rightarrow> error + Novel" where
  "NovelEndSerializer_validate rq d =
     (case find (\<lambda>n. novel_pk n = er_novel_id rq) (Novel_objects d) of
        None \<Rightarrow> Inl ValidationError
      | Some novel \<Rightarrow> Inr novel)"

text \<open>
  Modelled from the spec: \<open>IsOwnerOrReadOnly\<close> is declared in
  \<open>nextnovel.permissions\<close>, which is not part of the sources. The
  specification: a novel is "owned exclusively by its author for mutation;
  readable by anyone"; a read method passes, another method passes for the
  owner only.
\<close>

definition IsOwnerOrReadOnly :: "bool \<Rightarrow> User option \<Rightarrow> nat \<Rightarrow> bool" where
  "IsOwnerOrReadOnly safe_method user owner =
     (safe_method \<or> (case user of None \<Rightarrow> False | Some u \<Rightarrow> user_pk u = owner))"

text \<open>\<open>NovelContent.objects.get(novel=..., step=...)\<close>: exactly one row, or an error.\<close>

definition NovelContent_get :: "database \<Rightarrow> nat \<Rightarrow> int \<Rightarrow> error + NovelContent" where
  "NovelContent_get d novel_id s =
     (case filter (\<lambda>c. content_novel c = novel_id \<and> step c = s) (NovelContent_objects d) of
        [] \<Rightarrow> Inl DoesNotExist
      | [c] \<Rightarrow> Inr c
      | _ \<Rightarrow> Inl MultipleObjectsReturned)"

section \<open>The authoring workflow\<close>

subsection \<open>Start\<close>

text \<open>
  \<open>NovelStartAPI.post\<close>, in two parts: up to the end of the \<open>if DEV != 'TRUE'\<close>
  block, and the statements after it. With \<open>DEV\<close> set the block is skipped and
  the first statement after it reads a variable that was never bound.
\<close>

definition NovelStartAPI_post_persist ::
  "Novel \<Rightarrow> NovelContent \<Rightarrow> NovelContentImage list \<Rightarrow> json \<Rightarrow> json \<Rightarrow> json \<Rightarrow> world \<Rightarrow>
   (error + Response) \<times> world" where
  "NovelStartAPI_post_persist novel novel_content images story response_json response2_json w =
     (case py_pop response_json ''caption'' of
        Inl e \<Rightarrow> (Inl e, w)
      | Inr (caption_list, _) \<Rightarrow>
          (case assign_captions images caption_list 0 of
             Inl e \<Rightarrow> (Inl e, w)
           | Inr images' \<Rightarrow>
               let d1 = bulk_update_caption images' (db_state w);
                   novel_content' = novel_content\<lparr>content := story\<rparr>;
                   d2 = NovelContent_save novel_content' d1;
                   (next_novel_content, d3) = get_next_novel_content novel_content' novel d2
               in (case novel_content_with_query response2_json next_novel_content of
                     Inl e \<Rightarrow> (Inl e, w\<lparr>db_state := d3\<rparr>)
                   | Inr next_novel_content' \<Rightarrow>
                       let d4 = NovelContent_save next_novel_content' d3;
                           novel' = novel\<lparr>prompt := json_dumps response2_json\<rparr>;
                           d5 = Novel_save novel' d4;
                           response_data = JObject
                             [(''id'', JInt (int (novel_pk novel'))),
                              (''step'', JInt 1),
                              (''story'', story),
                              (''materials'',
                                 JArray (map (\<lambda>im. JObject [(''image'', JString (image_file im)),
                                                            (''caption'', caption im)]) images')),
                              (''genre'', genre_dict (genre novel'))]
                       in (Inr \<lparr>resp_status = HTTP_200_OK, resp_data = response_data\<rparr>,
                           w\<lparr>db_state := d5\<rparr>))))"

definition NovelStartAPI_post ::
  "settings \<Rightarrow> User option \<Rightarrow> start_request \<Rightarrow> world \<Rightarrow> (error + Response) \<times> world" where
  "NovelStartAPI_post env user rq w =
     (case user of
        None \<Rightarrow> (Inl NotAuthenticated, w)
      | Some u \<Rightarrow>
          if DEMO env = Some ''TRUE'' \<and> nickname u \<noteq> demo_nickname
          then (Inr \<lparr>resp_status = HTTP_500_INTERNAL_SERVER_ERROR, resp_data = JObject []\<rparr>, w)
          else
            (case NovelStartSerializer_save env u rq (db_state w) of
               Inl e \<Rightarrow> (Inl e, w)
             | Inr (novel, novel_content, images, d1) \<Rightarrow>
                 let w1 = w\<lparr>db_state := d1\<rparr>;
                     files = map (\<lambda>im. (''images'', filename_of (image_file im))) images;
                     data = [(''genre'', sr_genre rq)]
                 in if DEV env \<noteq> ''TRUE'' then
                      (case requests_post \<lparr>req_url = start_url env, req_files = files,
                                           req_data = data\<rparr> w1 of
                         (Inl e, w2) \<Rightarrow> (Inl e, w2)
                       | (Inr response, w2) \<Rightarrow>
                           if status_code response \<noteq> 200 then (Inl RequestAIServerError, w2)
                           else
                             (case json_of_response response of
                                Inl e \<Rightarrow> (Inl e, w2)
                              | Inr response_json \<Rightarrow>
                                  (case py_pop response_json ''korean_answer'' of
                                     Inl e \<Rightarrow> (Inl e, w2)
                                   | Inr (story, response_json1) \<Rightarrow>
                                       (case py_pop response_json1 ''dialog_history'' of
                                          Inl e \<Rightarrow> (Inl e, w2)
                                        | Inr (dialog_history, response_json2) \<Rightarrow>
                                            (case retrieve_question_from_ai_json env dialog_history w2 of
                                               (Inl e, w3) \<Rightarrow> (Inl e, w3)
                                             | (Inr response2_json, w3) \<Rightarrow>
                                                 NovelStartAPI_post_persist novel novel_content
                                                   images story response_json2 response2_json w3)))))
                    else (Inl UnboundLocalError, w1)))"

subsection \<open>Continue\<close>

text \<open>
  \<open>NovelContinueAPI.post\<close>: the statements from \<open>image.caption = caption\<close> on,
  and before them the request to the AI server, the three \<open>pop\<close>s and the
  question request.
\<close>

definition NovelContinueAPI_post_persist ::
  "Novel \<Rightarrow> NovelContent \<Rightarrow> NovelContentImage \<Rightarrow> json \<Rightarrow> json \<Rightarrow> json \<Rightarrow> json \<Rightarrow> world \<Rightarrow>
   (error + Response) \<times> world" where
  "NovelContinueAPI_post_persist novel novel_content img selected_query caption_value story
     response2_json w =
     (let img' = img\<lparr>caption := caption_value\<rparr>;
          d1 = NovelContentImage_save img' (db_state w);
          dialog = json_dumps response2_json;
          novel' = novel\<lparr>prompt := dialog\<rparr>;
          d2 = Novel_save novel' d1;
          novel_content' = novel_content\<lparr>content := story, chosen_query := selected_query\<rparr>;
          d3 = NovelContent_save novel_content' d2;
          (next_novel_content, d4) = get_next_novel_content novel_content' novel' d3
      in (case novel_content_with_query response2_json next_novel_content of
            Inl e \<Rightarrow> (Inl e, w\<lparr>db_state := d4\<rparr>)
          | Inr next_novel_content' \<Rightarrow>
              let d5 = NovelContent_save next_novel_content' d4;
                  response_data = JObject
                    [(''id'', JInt (int (novel_pk novel'))),
                     (''newMaterial'', JObject [(''image'', JString (image_file img')),
                                                (''caption'', caption_value)]),
                     (''step'', JInt (step novel_content')),
                     (''story'', story)]
              in (Inr \<lparr>resp_status = HTTP_200_OK, resp_data = response_data\<rparr>,
                  w\<lparr>db_state := d5\<rparr>)))"

definition NovelContinueAPI_post ::
  "settings \<Rightarrow> User option \<Rightarrow> continue_request \<Rightarrow> world \<Rightarrow> (error + Response) \<times> world" where
  "NovelContinueAPI_post env user rq w =
     (case user of
        None \<Rightarrow> (Inl NotAuthenticated, w)
      | Some u \<Rightarrow>
          (case NovelContinueSerializer_save rq (db_state w) of
             Inl e \<Rightarrow> (Inl e, w)
           | Inr (novel, novel_content, img, selected_query, d1) \<Rightarrow>
               let w1 = w\<lparr>db_state := d1\<rparr> in
               if DEV env \<noteq> ''TRUE'' then
                 (let files = [(''image'', filename_of (image_file img))] in
                  case json_loads (prompt novel) of
                    None \<Rightarrow> (Inl JSONDecodeError, w1)
                  | Some dialog_history \<Rightarrow>
                      (case py_get dialog_history ''dialog_history'' of
                         Inl e \<Rightarrow> (Inl e, w1)
                       | Inr dh \<Rightarrow>
                           let data = [(''previous_question'', json_dumps selected_query),
                                       (''dialog_history'', json_dumps dh)]
                           in (case requests_post \<lparr>req_url = sequence_url env, req_files = files,
                                                   req_data = data\<rparr> w1 of
                                 (Inl e, w2) \<Rightarrow> (Inl e, w2)
                               | (Inr response, w2) \<Rightarrow>
                                   if status_code response \<noteq> 200
                                   then (Inr \<lparr>resp_status = HTTP_408_REQUEST_TIMEOUT,
                                              resp_data = JObject []\<rparr>, w2)
                                   else
                                     (case json_of_response response of
                                        Inl e \<Rightarrow> (Inl e, w2)
                                      | Inr response_json \<Rightarrow>
                                          (case py_pop response_json ''caption'' of
                                             Inl e \<Rightarrow> (Inl e, w2)
                                           | Inr (caption_value, response_json1) \<Rightarrow>
                                               (case py_pop response_json1 ''korean_answer'' of
                                                  Inl e \<Rightarrow> (Inl e, w2)
                                                | Inr (story, response_json2) \<Rightarrow>
                                                    (case py_pop response_json2 ''dialog_history'' of
                                                       Inl e \<Rightarrow> (Inl e, w2)
                                                     | Inr (dialog_history', _) \<Rightarrow>
                                                         (case retrieve_question_from_ai_json env
                                                                 dialog_history' w2 of
                                                            (Inl e, w3) \<Rightarrow> (Inl e, w3)
                                                          | (Inr response2_json, w3) \<Rightarrow>
                                                              NovelContinueAPI_post_persist novel
                                                                novel_content img selected_query
                                                                caption_value story response2_json
                                                                w3))))))))
               else (Inl UnboundLocalError, w1)))"

subsection \<open>End\<close>

text \<open>
  \<open>NovelEndAPI.post\<close>. The statements after the \<open>if DEV != 'TRUE'\<close> block are
  run with the parsed answer when the block ran, and with no \<open>response_json\<close>
  bound when it was skipped: then the novel is saved and the next statement
  fails. Inside the block the answer is parsed before its status is looked at.
\<close>

definition NovelEndAPI_post_persist ::
  "Novel \<Rightarrow> NovelContent \<Rightarrow> json \<Rightarrow> json option \<Rightarrow> world \<Rightarrow> (error + Response) \<times> world" where
  "NovelEndAPI_post_persist novel novel_content dialog_history response_json w =
     (let novel' = novel\<lparr>prompt := json_dumps dialog_history\<rparr>;
          d1 = Novel_save novel' (db_state w);
          w1 = w\<lparr>db_state := d1\<rparr>
      in case response_json of
           None \<Rightarrow> (Inl UnboundLocalError, w1)
         | Some response_json' \<Rightarrow>
             (case py_get response_json' ''korean_answer'' of
                Inl e \<Rightarrow> (Inl e, w1)
              | Inr answer \<Rightarrow>
                  let novel_content' = novel_content\<lparr>content := answer\<rparr>;
                      d2 = NovelContent_save novel_content' d1;
                      response_data = JObject [(''id'', JInt (int (novel_pk novel'))),
                                               (''story'', content novel_content')]
                  in (Inr \<lparr>resp_status = HTTP_200_OK, resp_data = response_data\<rparr>,
                      w\<lparr>db_state := d2\<rparr>)))"

definition NovelEndAPI_post ::
  "settings \<Rightarrow> User option \<Rightarrow> end_request \<Rightarrow> world \<Rightarrow> (error + Response) \<times> world" where
  "NovelEndAPI_post env user rq w =
     (case user of
        None \<Rightarrow> (Inl NotAuthenticated, w)
      | Some u \<Rightarrow>
          (case NovelEndSerializer_validate rq (db_state w) of
             Inl e \<Rightarrow> (Inl e, w)
           | Inr novel \<Rightarrow>
               (case NovelContent_get (db_state w) (novel_pk novel) (er_step rq) of
                  Inl e \<Rightarrow> (Inl e, w)
                | Inr novel_content \<Rightarrow>
                    (case json_loads (prompt novel) of
                       None \<Rightarrow> (Inl JSONDecodeError, w)
                     | Some dialog_history \<Rightarrow>
                         (case py_get dialog_history ''dialog_history'' of
                            Inl e \<Rightarrow> (Inl e, w)
                          | Inr dh \<Rightarrow>
                              let data = [(''dialog_history'', json_dumps dh)] in
                              if DEV env \<noteq> ''TRUE'' then
                                (case requests_post \<lparr>req_url = end_url env, req_files = [],
                                                     req_data = data\<rparr> w of
                                   (Inl e, w1) \<Rightarrow> (Inl e, w1)
                                 | (Inr response, w1) \<Rightarrow>
                                     (case json_of_response response of
                                        Inl e \<Rightarrow> (Inl e, w1)
                                      | Inr response_json \<Rightarrow>
                                          if status_code response \<noteq> 200
                                          then (Inl RequestAIServerError, w1)
                                          else NovelEndAPI_post_persist novel novel_content
                                                 dialog_history (Some response_json) w1))
                              else NovelEndAPI_post_persist novel novel_content
                                     dialog_history None w)))))"

subsection \<open>Complete\<close>

text \<open>
  \<open>NovelCompleteAPI.post\<close>: the novel or a 404, the owner check, and
  \<open>serializer.save(status=Novel.Status.FINISHED)\<close>. The serializer is declared
  outside this module; of a request that names the novel it is taken to change
  no other column.
\<close>

definition NovelCompleteAPI_post ::
  "User option \<Rightarrow> nat \<Rightarrow> database \<Rightarrow> (error + Response) \<times> database" where
  "NovelCompleteAPI_post user novel_id d =
     (case user of
        None \<Rightarrow> (Inl NotAuthenticated, d)
      | Some u \<Rightarrow>
          (case find (\<lambda>n. novel_pk n = novel_id) (Novel_objects d) of
             None \<Rightarrow> (Inl Http404, d)
           | Some novel \<Rightarrow>
               if \<not> IsOwnerOrReadOnly False user (author novel) then (Inl PermissionDenied, d)
               else
                 let novel' = novel\<lparr>status := FINISHED\<rparr>
                 in (Inr \<lparr>resp_status = HTTP_200_OK, resp_data = Novel_data novel'\<rparr>,
                     Novel_save novel' d)))"

section \<open>Reading novels\<close>

text \<open>
  \<open>order_by('?')\<close> asks the database for a random order. The model draws it
  from a list of numbers: each number picks the next row among those left.
\<close>

function shuffle :: "nat list \<Rightarrow> 'a list \<Rightarrow> 'a list" where
  "shuffle seed [] = []"
| "shuffle [] (x # xs) = x # xs"
| "shuffle (r # rs) (x # xs) =
     (let i = r mod length (x # xs)
      in (x # xs) ! i # shuffle rs (take i (x # xs) @ drop (Suc i) (x # xs)))"
  by pat_completeness auto
termination
  by (relation "measure (\<lambda>(seed, xs). length xs)") auto

text \<open>\<open>NovelRecAPI\<close>: the class queryset and \<open>get_queryset\<close>.\<close>

definition NovelRecAPI_get_queryset :: "nat list \<Rightarrow> database \<Rightarrow> Novel list" where
  "NovelRecAPI_get_queryset seed d =
     take 5 (shuffle seed (filter (\<lambda>n. status n = FINISHED) (Novel_objects d)))"

definition NovelRecAPI_list :: "nat list \<Rightarrow> database \<Rightarrow> Response" where
  "NovelRecAPI_list seed d =
     \<lparr>resp_status = HTTP_200_OK,
      resp_data = JArray (map Novel_data (NovelRecAPI_get_queryset seed d))\<rparr>"

text \<open>\<open>NovelPreviewAPI\<close>: one row of the finished novels, or a 404.\<close>

definition NovelPreviewAPI_retrieve :: "nat \<Rightarrow> database \<Rightarrow> error + Response" where
  "NovelPreviewAPI_retrieve novel_id d =
     (case find (\<lambda>n. novel_pk n = novel_id)
                (filter (\<lambda>n. status n = FINISHED) (Novel_objects d)) of
        None \<Rightarrow> Inl Http404
      | Some n \<Rightarrow> Inr \<lparr>resp_status = HTTP_200_OK, resp_data = Novel_data n\<rparr>)"

text \<open>\<open>novel_hit\<close>.\<close>

definition novel_hit :: "Novel \<Rightarrow> User option \<Rightarrow> database \<Rightarrow> error + database" where
  "novel_hit novel user d =
     (case user of
        None \<Rightarrow> Inr d
      | Some u \<Rightarrow>
          (case Novel_novelstats d novel of
             Inl e \<Rightarrow> Inl e
           | Inr st \<Rightarrow>
               Inr (NovelStats_save_F (\<lambda>s v. s\<lparr>hit_count := v\<rparr>) hit_count 1 st d)))"

definition NovelContent_data :: "NovelContent \<Rightarrow> json" where
  "NovelContent_data c =
     JObject [(''step'', JInt (step c)), (''content'', content c),
              (''chosen_query'', chosen_query c)]"

text \<open>
  \<open>NovelDetailAPI\<close>. Its queryset is \<open>Novel.objects.all()\<close>: \<open>get_object\<close>
  looks the key up among all novels. A read passes \<open>IsOwnerOrReadOnly\<close> for
  everybody.
\<close>

definition NovelDetailAPI_get_object :: "nat \<Rightarrow> database \<Rightarrow> error + Novel" where
  "NovelDetailAPI_get_object novel_id d =
     (case find (\<lambda>n. novel_pk n = novel_id) (Novel_objects d) of
        None \<Rightarrow> Inl Http404
      | Some n \<Rightarrow> Inr n)"

definition NovelDetailAPI_retrieve ::
  "User option \<Rightarrow> nat \<Rightarrow> database \<Rightarrow> (error + Response) \<times> database" where
  "NovelDetailAPI_retrieve user novel_id d =
     (case NovelDetailAPI_get_object novel_id d of
        Inl e \<Rightarrow> (Inl e, d)
      | Inr instance \<Rightarrow>
          if \<not> IsOwnerOrReadOnly True user (author instance) then (Inl PermissionDenied, d)
          else
            let novel_content =
                  sort_key step (filter (\<lambda>c. content_novel c = novel_pk instance)
                                        (NovelContent_objects d));
                response_data = JObject
                  [(''novel'', Novel_data instance),
                   (''novel_detail'', JArray (map NovelContent_data novel_content))]
            in (case novel_hit instance user d of
                  Inl e \<Rightarrow> (Inl e, d)
                | Inr d' \<Rightarrow>
                    (Inr \<lparr>resp_status = HTTP_200_OK, resp_data = response_data\<rparr>, d')))"

text \<open>
  The inherited \<open>destroy\<close> of \<open>NovelDetailAPI\<close>: the owner deletes the novel.
  The models are declared outside this module; their foreign keys are taken to
  cascade, so the rows that point to the novel go with it.
\<close>

definition NovelDetailAPI_destroy ::
  "User option \<Rightarrow> nat \<Rightarrow> database \<Rightarrow> (error + Response) \<times> database" where
  "NovelDetailAPI_destroy user novel_id d =
     (case NovelDetailAPI_get_object novel_id d of
        Inl e \<Rightarrow> (Inl e, d)
      | Inr instance \<Rightarrow>
          if \<not> IsOwnerOrReadOnly False user (author instance) then (Inl PermissionDenied, d)
          else
            let pk = novel_pk instance;
                gone = map content_pk (filter (\<lambda>c. content_novel c = pk) (NovelContent_objects d))
            in (Inr \<lparr>resp_status = HTTP_204_NO_CONTENT, resp_data = JNull\<rparr>,
                d\<lparr>Novel_objects := filter (\<lambda>n. novel_pk n \<noteq> pk) (Novel_objects d),
                  NovelContent_objects :=
                    filter (\<lambda>c. content_novel c \<noteq> pk) (NovelContent_objects d),
                  NovelContentImage_objects :=
                    filter (\<lambda>i. image_content i \<notin> set gone) (NovelContentImage_objects d),
                  NovelStats_objects := filter (\<lambda>s. stats_novel s \<noteq> pk) (NovelStats_objects d),
                  NovelLike_objects := filter (\<lambda>l. like_novel l \<noteq> pk) (NovelLike_objects d),
                  NovelComment_objects :=
                    filter (\<lambda>c. comment_novel c \<noteq> pk) (NovelComment_objects d)\<rparr>))"

text \<open>
  \<open>NovelListAPI.get_queryset\<close>, with the \<open>genre\<close> query parameter when the
  request has one. The search filter and the pagination that the framework
  applies afterwards select rows of this queryset.
\<close>

definition NovelListAPI_get_queryset ::
  "settings \<Rightarrow> string option \<Rightarrow> database \<Rightarrow> Novel list" where
  "NovelListAPI_get_queryset env genre_param d =
     (let queryset = filter (\<lambda>n. status n = FINISHED) (Novel_objects d)
      in case genre_param of
           None \<Rightarrow> queryset
         | Some g \<Rightarrow>
             (case get_value_from_label env g of
                None \<Rightarrow> queryset
              | Some genre_value \<Rightarrow> filter (\<lambda>n. genre n = genre_value) queryset))"

definition NovelListAPI_list :: "settings \<Rightarrow> string option \<Rightarrow> database \<Rightarrow> Response" where
  "NovelListAPI_list env genre_param d =
     \<lparr>resp_status = HTTP_200_OK,
      resp_data = JArray (map Novel_data (NovelListAPI_get_queryset env genre_param d))\<rparr>"

text \<open>\<open>NovelQuestionAPI\<close>.\<close>

definition NovelQuestionAPI_retrieve ::
  "User option \<Rightarrow> nat \<Rightarrow> int \<Rightarrow> database \<Rightarrow> error + Response" where
  "NovelQuestionAPI_retrieve user novel_id s d =
     (case user of
        None \<Rightarrow> Inl NotAuthenticated
      | Some u \<Rightarrow>
          (case NovelContent_get d novel_id s of
             Inl e \<Rightarrow> Inl e
           | Inr instance \<Rightarrow>
               Inr \<lparr>resp_status = HTTP_200_OK,
                    resp_data = JObject
                      [(''queries'',
                        JArray [JObject [(''index'', JInt 1), (''query'', query1 instance)],
                                JObject [(''index'', JInt 2), (''query'', query2 instance)],
                                JObject [(''index'', JInt 3), (''query'', query3 instance)]])]\<rparr>))"

section \<open>Comments\<close>

definition NovelComment_data :: "NovelComment \<Rightarrow> json" where
  "NovelComment_data c =
     JObject [(''id'', JInt (int (comment_pk c))), (''author'', JInt (int (comment_author c))),
              (''content'', JString (comment_text c))]"

text \<open>\<open>NovelCommentAPI\<close>: \<open>get_queryset\<close> behind the list, \<open>perform_create\<close> behind the create.\<close>

definition NovelCommentAPI_list :: "nat \<Rightarrow> database \<Rightarrow> error + Response" where
  "NovelCommentAPI_list novel_id d =
     (case Novel_get d novel_id of
        Inl e \<Rightarrow> Inl e
      | Inr novel \<Rightarrow>
          Inr \<lparr>resp_status = HTTP_200_OK,
               resp_data = JArray (map NovelComment_data
                 (rev (sort_key comment_pk
                    (filter (\<lambda>c. comment_novel c = novel_pk novel) (NovelComment_objects d)))))\<rparr>)"

definition NovelCommentAPI_create ::
  "User option \<Rightarrow> nat \<Rightarrow> string \<Rightarrow> database \<Rightarrow> (error + Response) \<times> database" where
  "NovelCommentAPI_create user novel_id txt d =
     (case user of
        None \<Rightarrow> (Inl NotAuthenticated, d)
      | Some u \<Rightarrow>
          (case Novel_get d novel_id of
             Inl e \<Rightarrow> (Inl e, d)
           | Inr novel \<Rightarrow>
               (case Novel_novelstats d novel of
                  Inl e \<Rightarrow> (Inl e, d)
                | Inr st \<Rightarrow>
                    let d1 = NovelStats_save_F (\<lambda>s v. s\<lparr>comment_count := v\<rparr>) comment_count 1 st d;
                        row = \<lparr>comment_pk = next_comment_pk d1, comment_novel = novel_pk novel,
                               comment_author = user_pk u, comment_text = txt\<rparr>
                    in (Inr \<lparr>resp_status = HTTP_201_CREATED, resp_data = NovelComment_data row\<rparr>,
                        d1\<lparr>NovelComment_objects := NovelComment_objects d1 @ [row],
                           next_comment_pk := Suc (next_comment_pk d1)\<rparr>))))"

text \<open>\<open>NovelCommentDeleteAPI.destroy\<close>.\<close>

definition NovelCommentDeleteAPI_destroy ::
  "User option \<Rightarrow> nat \<Rightarrow> database \<Rightarrow> (error + Response) \<times> database" where
  "NovelCommentDeleteAPI_destroy user comment_id d =
     (case user of
        None \<Rightarrow> (Inl NotAuthenticated, d)
      | Some u \<Rightarrow>
          (case find (\<lambda>c. comment_pk c = comment_id) (NovelComment_objects d) of
             None \<Rightarrow> (Inl Http404, d)
           | Some instance \<Rightarrow>
               if \<not> IsOwnerOrReadOnly False user (comment_author instance)
               then (Inl PermissionDenied, d)
               else
                 let d1 = d\<lparr>NovelComment_objects :=
                              filter (\<lambda>c. comment_pk c \<noteq> comment_id) (NovelComment_objects d)\<rparr>
                 in (case Novel_get d1 (comment_novel instance) of
                       Inl e \<Rightarrow> (Inl e, d1)
                     | Inr novel \<Rightarrow>
                         (case Novel_novelstats d1 novel of
                            Inl e \<Rightarrow> (Inl e, d1)
                          | Inr st \<Rightarrow>
                              (Inr \<lparr>resp_status = HTTP_204_NO_CONTENT, resp_data = JNull\<rparr>,
                               NovelStats_save_F (\<lambda>s v. s\<lparr>comment_count := v\<rparr>)
                                 comment_count (- 1) st d1)))))"

section \<open>Cover image\<close>

text \<open>
  \<open>NovelCoverImageAPI.post\<close>. Saving a file field saves the row; the row ends
  with the two file names.
\<close>

definition NovelCoverImageAPI_post ::
  "settings \<Rightarrow> User option \<Rightarrow> nat \<Rightarrow> string \<Rightarrow> world \<Rightarrow> (error + Response) \<times> world" where
  "NovelCoverImageAPI_post env user novel_id img w =
     (case user of
        None \<Rightarrow> (Inl NotAuthenticated, w)
      | Some u \<Rightarrow>
          (case find (\<lambda>n. novel_pk n = novel_id) (Novel_objects (db_state w)) of
             None \<Rightarrow> (Inl ValidationError, w)
           | Some novel \<Rightarrow>
               (case requests_post \<lparr>req_url = image_url env, req_files = [(''image'', img)],
                                    req_data = []\<rparr> w of
                  (Inl e, w1) \<Rightarrow> (Inl e, w1)
                | (Inr response, w1) \<Rightarrow>
                    if status_code response \<noteq> 200 then (Inl RequestAIServerError, w1)
                    else
                      let file_name = ''novel_cover_'' @ digits_of (novel_pk novel) @ ''.png'';
                          novel' = novel\<lparr>cover_img := file_name,
                                         original_cover_img := ''original.png''\<rparr>
                      in (Inr \<lparr>resp_status = HTTP_200_OK, resp_data = Novel_data novel'\<rparr>,
                          w1\<lparr>db_state := Novel_save novel' (db_state w1)\<rparr>))))"

section \<open>The operations of the module\<close>

text \<open>
  Every view of \<open>views.py\<close> as one request type, and a run of requests, each
  with the user who sends it. A view that raises leaves the world as it was at
  the raise. The like view has no permission class; its query needs a user.
\<close>

datatype request =
    Rec "nat list"
  | Preview nat
  | DetailRetrieve nat
  | DetailDestroy nat
  | CommentList nat
  | CommentCreate nat string
  | CommentDelete nat
  | Like nat
  | ListNovels "string option"
  | Start start_request
  | Continue continue_request
  | End end_request
  | CoverImage nat string
  | Question nat int
  | Complete nat

definition on_db ::
  "(database \<Rightarrow> (error + Response) \<times> database) \<Rightarrow> world \<Rightarrow> (error + Response) \<times> world" where
  "on_db f w = (case f (db_state w) of (r, d) \<Rightarrow> (r, w\<lparr>db_state := d\<rparr>))"

fun handle :: "settings \<Rightarrow> User option \<Rightarrow> request \<Rightarrow> world \<Rightarrow> (error + Response) \<times> world" where
  "handle env user (Rec seed) w = (Inr (NovelRecAPI_list seed (db_state w)), w)"
| "handle env user (Preview novel_id) w = (NovelPreviewAPI_retrieve novel_id (db_state w), w)"
| "handle env user (DetailRetrieve novel_id) w = on_db (NovelDetailAPI_retrieve user novel_id) w"
| "handle env user (DetailDestroy novel_id) w = on_db (NovelDetailAPI_destroy user novel_id) w"
| "handle env user (CommentList novel_id) w = (NovelCommentAPI_list novel_id (db_state w), w)"
| "handle env user (CommentCreate novel_id txt) w =
     on_db (NovelCommentAPI_create user novel_id txt) w"
| "handle env user (CommentDelete comment_id) w =
     on_db (NovelCommentDeleteAPI_destroy user comment_id) w"
| "handle env user (Like novel_id) w =
     (case user of
        None \<Rightarrow> (Inl TypeError, w)
      | Some u \<Rightarrow> on_db (NovelLikeAPI_create novel_id u) w)"
| "handle env user (ListNovels genre_param) w =
     (Inr (NovelListAPI_list env genre_param (db_state w)), w)"
| "handle env user (Start rq) w = NovelStartAPI_post env user rq w"
| "handle env user (Continue rq) w = NovelContinueAPI_post env user rq w"
| "handle env user (End rq) w = NovelEndAPI_post env user rq w"
| "handle env user (CoverImage novel_id img) w = NovelCoverImageAPI_post env user novel_id img w"
| "handle env user (Question novel_id s) w =
     (NovelQuestionAPI_retrieve user novel_id s (db_state w), w)"
| "handle env user (Complete novel_id) w = on_db (NovelCompleteAPI_post user novel_id) w"

fun run :: "settings \<Rightarrow> (User option \<times> request) list \<Rightarrow> world \<Rightarrow> world" where
  "run env [] w = w"
| "run env ((user, rq) # rest) w = run env rest (snd (handle env user rq w))"

section \<open>Keys of the database\<close>

text \<open>
  What auto-increment primary keys and foreign keys give: every key in a table
  was issued before the next key of that table, and a row points to a key that
  was issued.
\<close>

definition db_invariant :: "database \<Rightarrow> bool" where
  "db_invariant d =
     ((\<forall>n \<in> set (Novel_objects d). novel_pk n < next_novel_pk d) \<and>
      (\<forall>c \<in> set (NovelContent_objects d).
          content_pk c < next_content_pk d \<and> content_novel c < next_novel_pk d) \<and>
      (\<forall>i \<in> set (NovelContentImage_objects d).
          image_pk i < next_image_pk d \<and> image_content i < next_content_pk d))"

text \<open>The image rows a start request creates, as its serializer numbers them.\<close>

definition start_images :: "nat \<Rightarrow> nat \<Rightarrow> string list \<Rightarrow> NovelContentImage list" where
  "start_images ni cid names =
     map (\<lambda>(i, name). \<lparr>image_pk = ni + i, image_content = cid, image_file = name,
                         caption = JNull\<rparr>) (enumerate 0 names)"


text \<open>
  Novel \<open>n\<close> is finished in a database: its key was issued, and every row with
  that key has status FINISHED. Keys of the table are below the next key, as
  auto-increment gives.
\<close>

definition novel_finished :: "nat \<Rightarrow> database \<Rightarrow> bool" where
  "novel_finished n d =
     (n < next_novel_pk d \<and>
      (\<forall>r \<in> set (Novel_objects d).
          novel_pk r < next_novel_pk d \<and> (novel_pk r = n \<longrightarrow> status r = FINISHED)))"
section \<open>Example data\<close>

definition db0 :: database where
  "db0 = \<lparr>Novel_objects = [\<lparr>novel_pk = 1, author = 2, title = ''t'', genre = 1, status = FINISHED,
                       prompt = [], cover_img = [], original_cover_img = []\<rparr>],
          NovelContent_objects = [], NovelContentImage_objects = [],
          NovelStats_objects = [\<lparr>stats_novel = 1, hit_count = 0, like_count = 0, comment_count = 0\<rparr>],
          NovelLike_objects = [], NovelComment_objects = [],
          next_novel_pk = 2, next_content_pk = 1, next_image_pk = 1, next_comment_pk = 1\<rparr>"

definition user7 :: User where
  "user7 = \<lparr>user_pk = 7, nickname = ''reader''\<rparr>"

definition env0 :: settings where
  "env0 = \<lparr>DEV = ''FALSE'', DEMO = None, AI_URL = ''http://ai/'',
           genre_field = (\<lambda>s. if s = ''1'' then Some 1 else None),
           get_value_from_label = (\<lambda>s. if s = ''SF'' then Some 4 else None)\<rparr>"

definition author2 :: User where
  "author2 = \<lparr>user_pk = 2, nickname = ''writer''\<rparr>"

definition start_answer :: http_response where
  "start_answer = \<lparr>status_code = 200, body = json_dumps (JObject
      [(''korean_answer'', JString ''once''), (''dialog_history'', JArray [JString ''h1'']),
       (''caption'', JArray [JString ''a cat'', JString ''a dog''])])\<rparr>"

definition question_json :: json where
  "question_json = JObject
      [(''query1'', JString ''q1''), (''query2'', JString ''q2''), (''query3'', JString ''q3''),
       (''dialog_history'', JArray [JString ''h1'', JString ''h2''])]"

definition question_answer :: http_response where
  "question_answer = \<lparr>status_code = 200, body = json_dumps question_json\<rparr>"

definition sequence_answer :: http_response where
  "sequence_answer = \<lparr>status_code = 200, body = json_dumps (JObject
      [(''caption'', JString ''a bird''), (''korean_answer'', JString ''then''),
       (''dialog_history'', JArray [JString ''h1'', JString ''h2'', JString ''h3''])])\<rparr>"

definition end_answer :: http_response where
  "end_answer = \<lparr>status_code = 200,
                  body = json_dumps (JObject [(''korean_answer'', JString ''the end'')])\<rparr>"

definition server_error :: http_response where
  "server_error = \<lparr>status_code = 500, body = ''Internal Server Error''\<rparr>"

definition start_rq :: start_request where
  "start_rq = \<lparr>sr_genre = ''1'', sr_images = [''up/a.png'', ''up/b.png'']\<rparr>"

definition continue_rq :: continue_request where
  "continue_rq = \<lparr>cr_novel_id = 2, cr_step = 2, cr_query = ''q2'', cr_image = ''up/c.png''\<rparr>"

definition end_rq :: end_request where
  "end_rq = \<lparr>er_novel_id = 2, er_step = 3\<rparr>"

text \<open>
  The world before a start request, with the answers the AI server is going to
  give; the databases after the start request and after the continue request
  that follows it; and a database with a draft and a finished novel.
\<close>

definition world0 :: "http_response list \<Rightarrow> world" where
  "world0 answers = \<lparr>db_state = db0, upstream = answers, sent = []\<rparr>"

definition db_started :: database where
  "db_started =
     \<lparr>Novel_objects =
        [\<lparr>novel_pk = 1, author = 2, title = ''t'', genre = 1, status = FINISHED,
          prompt = [], cover_img = [], original_cover_img = []\<rparr>,
         \<lparr>novel_pk = 2, author = 2, title = [], genre = 1, status = DRAFT,
          prompt = json_dumps question_json, cover_img = [], original_cover_img = []\<rparr>],
      NovelContent_objects =
        [\<lparr>content_pk = 1, content_novel = 2, step = 1, content = JString ''once'',
          chosen_query = JNull, query1 = JNull, query2 = JNull, query3 = JNull\<rparr>,
         \<lparr>content_pk = 2, content_novel = 2, step = 2, content = JNull,
          chosen_query = JNull, query1 = JString ''q1'', query2 = JString ''q2'',
          query3 = JString ''q3''\<rparr>],
      NovelContentImage_objects =
        [\<lparr>image_pk = 1, image_content = 1, image_file = ''up/a.png'',
          caption = JString ''a cat''\<rparr>,
         \<lparr>image_pk = 2, image_content = 1, image_file = ''up/b.png'',
          caption = JString ''a dog''\<rparr>],
      NovelStats_objects =
        [\<lparr>stats_novel = 1, hit_count = 0, like_count = 0, comment_count = 0\<rparr>,
         \<lparr>stats_novel = 2, hit_count = 0, like_count = 0, comment_count = 0\<rparr>],
      NovelLike_objects = [], NovelComment_objects = [],
      next_novel_pk = 3, next_content_pk = 3, next_image_pk = 3, next_comment_pk = 1\<rparr>"

definition db_continued :: database where
  "db_continued =
     db_started
       \<lparr>NovelContent_objects :=
          [\<lparr>content_pk = 1, content_novel = 2, step = 1, content = JString ''once'',
            chosen_query = JNull, query1 = JNull, query2 = JNull, query3 = JNull\<rparr>,
           \<lparr>content_pk = 2, content_novel = 2, step = 2, content = JString ''then'',
            chosen_query = JString ''q2'', query1 = JString ''q1'', query2 = JString ''q2'',
            query3 = JString ''q3''\<rparr>,
           \<lparr>content_pk = 3, content_novel = 2, step = 3, content = JNull,
            chosen_query = JNull, query1 = JString ''q1'', query2 = JString ''q2'',
            query3 = JString ''q3''\<rparr>],
        NovelContentImage_objects :=
          NovelContentImage_objects db_started @
          [\<lparr>image_pk = 3, image_content = 2, image_file = ''up/c.png'',
            caption = JString ''a bird''\<rparr>],
        next_content_pk := 4, next_image_pk := 4\<rparr>"


definition world_started :: "http_response list \<Rightarrow> world" where
  "world_started answers = \<lparr>db_state = db_started, upstream = answers, sent = []\<rparr>"

definition world_continued :: "http_response list \<Rightarrow> world" where
  "world_continued answers = \<lparr>db_state = db_continued, upstream = answers, sent = []\<rparr>"

definition sequence_rq :: http_request where
  "sequence_rq =
     \<lparr>req_url = ''http://ai/novel/sequence'', req_files = [(''image'', ''c.png'')],
      req_data = [(''previous_question'', json_dumps (JString ''q2'')),
                  (''dialog_history'', json_dumps (JArray [JString ''h1'', JString ''h2'']))]\<rparr>"

definition question_rq :: "json \<Rightarrow> http_request" where
  "question_rq dialog_history =
     \<lparr>req_url = ''http://ai/novel/question'', req_files = [],
      req_data = [(''dialog_history'', json_dumps dialog_history)]\<rparr>"

definition end_http_rq :: http_request where
  "end_http_rq =
     \<lparr>req_url = ''http://ai/novel/end'', req_files = [],
      req_data = [(''dialog_history'', json_dumps (JArray [JString ''h1'', JString ''h2'']))]\<rparr>"

definition start_response :: Response where
  "start_response =
     \<lparr>resp_status = 200,
      resp_data = JObject
        [(''id'', JInt 2), (''step'', JInt 1), (''story'', JString ''once''),
         (''materials'',
            JArray [JObject [(''image'', JString ''up/a.png''), (''caption'', JString ''a cat'')],
                    JObject [(''image'', JString ''up/b.png''), (''caption'', JString ''a dog'')]]),
         (''genre'', genre_dict 1)]\<rparr>"

definition continue_response :: Response where
  "continue_response =
     \<lparr>resp_status = 200,
      resp_data = JObject
        [(''id'', JInt 2),
         (''newMaterial'', JObject [(''image'', JString ''up/c.png''),
                                    (''caption'', JString ''a bird'')]),
         (''step'', JInt 2), (''story'', JString ''then'')]\<rparr>"

definition world_after_start :: world where
  "world_after_start =
     \<lparr>db_state = db_started, upstream = [],
      sent = [\<lparr>req_url = ''http://ai/novel/start'',
               req_files = [(''images'', ''a.png''), (''images'', ''b.png'')],
               req_data = [(''genre'', ''1'')]\<rparr>,
              question_rq (JArray [JString ''h1''])]\<rparr>"

definition world_after_continue :: world where
  "world_after_continue =
     \<lparr>db_state = db_continued, upstream = [],
      sent = [sequence_rq,
              question_rq (JArray [JString ''h1'', JString ''h2'', JString ''h3''])]\<rparr>"





text \<open>A session of requests by the author of novel 2 and by another user.\<close>

definition run_rqs :: "(User option \<times> request) list" where
  "run_rqs = [(Some author2, Start start_rq), (Some user7, Like 1),
              (Some author2, Continue continue_rq), (None, DetailRetrieve 1),
              (Some author2, End end_rq), (Some author2, Complete 2),
              (Some user7, CommentCreate 1 ''nice''), (Some author2, DetailDestroy 2)]"

definition run_answers :: "http_response list" where
  "run_answers = [start_answer, question_answer, sequence_answer, question_answer, end_answer]"
section \<open>The decoder reads back what the encoder writes\<close>

subsection \<open>From tokens to values\<close>

lemma parse_tokens_None [simp]: "parse_tokens ts None = None"
  by (cases ts) simp_all

lemma dict_set_fresh: "k \<notin> fst ` set kvs \<Longrightarrow> dict_set kvs k v = kvs @ [(k, v)]"
  by (induction kvs) auto

lemma parse_elems:
  assumes "\<And>v m st ts. v \<in> set (x # xs) \<Longrightarrow> value_mode m \<Longrightarrow>
             parse_tokens (tokens_of v @ ts) (Some (m, st)) = parse_tokens ts (put_value v st)"
    and "value_mode m"
  shows "parse_tokens (join [COMMA] (map tokens_of (x # xs)) @ RBRACKET # ts) (Some (m, FArr acc # st))
         = parse_tokens ts (put_value (JArray (acc @ x # xs)) st)"
  using assms
proof (induction xs arbitrary: x acc m)
  case Nil
  then show ?case by (simp add: value_mode_def)
next
  case (Cons y ys)
  have IH: "parse_tokens (join [COMMA] (map tokens_of (y # ys)) @ RBRACKET # ts) (Some (MValue, FArr (acc @ [x]) # st))
         = parse_tokens ts (put_value (JArray ((acc @ [x]) @ y # ys)) st)"
    by (rule Cons.IH) (use Cons.prems in \<open>auto simp: value_mode_def\<close>)
  have "parse_tokens (join [COMMA] (map tokens_of (x # y # ys)) @ RBRACKET # ts) (Some (m, FArr acc # st))
    = parse_tokens (tokens_of x @ (COMMA # join [COMMA] (map tokens_of (y # ys)) @ RBRACKET # ts)) (Some (m, FArr acc # st))"
    by simp
  also have "\<dots> = parse_tokens (COMMA # join [COMMA] (map tokens_of (y # ys)) @ RBRACKET # ts) (put_value x (FArr acc # st))"
    by (rule Cons.prems(1)) (use Cons.prems(2) in auto)
  also have "\<dots> = parse_tokens (join [COMMA] (map tokens_of (y # ys)) @ RBRACKET # ts) (Some (MValue, FArr (acc @ [x]) # st))"
    by simp
  finally show ?case using IH by simp
qed

lemma parse_members:
  assumes "\<And>k v m st ts. (k, v) \<in> set (x # xs) \<Longrightarrow> value_mode m \<Longrightarrow>
             parse_tokens (tokens_of v @ ts) (Some (m, st)) = parse_tokens ts (put_value v st)"
    and "m = MFirstKey \<or> m = MKey"
    and "distinct (map fst (acc @ x # xs))"
  shows "parse_tokens (join [COMMA] (map (\<lambda>(k, v). TSTRING k # COLON # tokens_of v) (x # xs)) @ RBRACE # ts)
           (Some (m, FObj acc # st))
         = parse_tokens ts (put_value (JObject (acc @ x # xs)) st)"
  using assms
proof (induction xs arbitrary: x acc m)
  case Nil
  obtain k v where x: "x = (k, v)" by (cases x)
  have "parse_tokens (tokens_of v @ RBRACE # ts) (Some (MValue, FKey k # FObj acc # st))
        = parse_tokens (RBRACE # ts) (put_value v (FKey k # FObj acc # st))"
    by (rule Nil.prems(1)[of k]) (auto simp: x value_mode_def)
  moreover have "dict_set acc k v = acc @ [(k, v)]"
    by (rule dict_set_fresh) (use Nil.prems(3) x in auto)
  ultimately show ?case using Nil.prems(2) by (auto simp: x)
next
  case (Cons y ys)
  obtain k v where x: "x = (k, v)" by (cases x)
  have fresh: "dict_set acc k v = acc @ [(k, v)]"
    by (rule dict_set_fresh) (use Cons.prems(3) x in auto)
  have IH: "parse_tokens (join [COMMA] (map (\<lambda>(k, v). TSTRING k # COLON # tokens_of v) (y # ys)) @ RBRACE # ts)
           (Some (MKey, FObj (acc @ [x]) # st))
         = parse_tokens ts (put_value (JObject ((acc @ [x]) @ y # ys)) st)"
  proof (rule Cons.IH)
    fix k v m st ts
    assume "(k, v) \<in> set (y # ys)" "value_mode m"
    then show "parse_tokens (tokens_of v @ ts) (Some (m, st)) = parse_tokens ts (put_value v st)"
      using Cons.prems(1)[of k v m ts st] by simp
  qed (use Cons.prems(3) in auto)
  let ?rest = "COMMA # join [COMMA] (map (\<lambda>(k, v). TSTRING k # COLON # tokens_of v) (y # ys)) @ RBRACE # ts"
  have v: "parse_tokens (tokens_of v @ ?rest) (Some (MValue, FKey k # FObj acc # st))
        = parse_tokens ?rest (put_value v (FKey k # FObj acc # st))"
    by (rule Cons.prems(1)[of k]) (auto simp: x value_mode_def)
  have "parse_tokens (join [COMMA] (map (\<lambda>(k, v). TSTRING k # COLON # tokens_of v) (x # y # ys)) @ RBRACE # ts)
           (Some (m, FObj acc # st))
      = parse_tokens (tokens_of v @ ?rest) (Some (MValue, FKey k # FObj acc # st))"
    using Cons.prems(2) by (auto simp: x)
  also have "\<dots> = parse_tokens (join [COMMA] (map (\<lambda>(k, v). TSTRING k # COLON # tokens_of v) (y # ys)) @ RBRACE # ts)
           (Some (MKey, FObj (acc @ [x]) # st))"
    unfolding v by (simp add: fresh x)
  finally show ?case using IH by simp
qed

lemma parse_tokens_of:
  "wf_json v \<Longrightarrow> value_mode m \<Longrightarrow>
   parse_tokens (tokens_of v @ ts) (Some (m, st)) = parse_tokens ts (put_value v st)"
proof (induction v arbitrary: m st ts)
  case (JArray vs)
  show ?case
  proof (cases vs)
    case Nil
    then show ?thesis using JArray.prems by (auto simp: value_mode_def)
  next
    case (Cons x xs)
    have "parse_tokens (join [COMMA] (map tokens_of (x # xs)) @ RBRACKET # ts) (Some (MFirstElem, FArr [] # st))
         = parse_tokens ts (put_value (JArray ([] @ x # xs)) st)"
      by (rule parse_elems) (use JArray Cons in \<open>auto simp: value_mode_def\<close>)
    then show ?thesis using JArray.prems Cons by (auto simp: value_mode_def)
  qed
next
  case (JObject kvs)
  show ?case
  proof (cases kvs)
    case Nil
    then show ?thesis using JObject.prems by (auto simp: value_mode_def)
  next
    case (Cons x xs)
    have "parse_tokens (join [COMMA] (map (\<lambda>(k, v). TSTRING k # COLON # tokens_of v) (x # xs)) @ RBRACE # ts)
           (Some (MFirstKey, FObj [] # st))
         = parse_tokens ts (put_value (JObject ([] @ x # xs)) st)"
    proof (rule parse_members)
      fix k v m st ts
      assume "(k, v) \<in> set (x # xs)" "value_mode m"
      then show "parse_tokens (tokens_of v @ ts) (Some (m, st)) = parse_tokens ts (put_value v st)"
        using JObject.IH[of "(k, v)" v m ts st] JObject.prems(1) Cons by (auto simp: snds.simps)
    qed (use JObject.prems Cons in auto)
    then show ?thesis using JObject.prems Cons by (auto simp: value_mode_def)
  qed
qed (auto simp: value_mode_def)

subsection \<open>From text to tokens\<close>

declare digits_of.simps [simp del]

lemma hex_value_hex_digit: "\<forall>k \<in> {0..<16}. hex_value (hex_digit k) = Some k"
  by code_simp

lemma hex4_of_char:
  "hex4 (CHR ''0'') (CHR ''0'') (hex_digit (of_char c div 16)) (hex_digit (of_char c mod 16)) = Some c"
proof -
  have "(of_char c :: nat) < 256" by simp
  then have d: "(of_char c :: nat) div 16 < 16" by (simp add: less_mult_imp_div_less)
  have m: "(of_char c :: nat) mod 16 < 16" by simp
  have z: "hex_value (CHR ''0'') = Some 0" by (simp add: hex_value_def)
  show ?thesis
    using hex_value_hex_digit d m z by (simp add: hex4_def)
qed

lemma scan_string_escape:
  "scan_string (escape_char c @ cs) =
     map_option (\<lambda>(s, n). (c # s, n + length (escape_char c))) (scan_string cs)"
proof -
  consider (special) "c \<in> {CHR 0x22, CHR 0x5C, CHR 0x0A, CHR 0x0D, CHR 0x09, CHR 0x08, CHR 0x0C}"
    | (plain) "c \<notin> {CHR 0x22, CHR 0x5C, CHR 0x0A, CHR 0x0D, CHR 0x09, CHR 0x08, CHR 0x0C}"
        "0x20 \<le> (of_char c :: nat)" "(of_char c :: nat) \<le> 0x7E"
    | (uni) "c \<notin> {CHR 0x22, CHR 0x5C, CHR 0x0A, CHR 0x0D, CHR 0x09, CHR 0x08, CHR 0x0C}"
        "\<not> (0x20 \<le> (of_char c :: nat) \<and> (of_char c :: nat) \<le> 0x7E)"
    by blast
  then show ?thesis
  proof cases
    case special
    then show ?thesis
      by (auto simp: escape_char_def unescape_def split: option.splits)
  next
    case plain
    then show ?thesis
      by (auto simp: escape_char_def split: option.splits)
  next
    case uni
    then show ?thesis
      using hex4_of_char[of c]
      by (auto simp: escape_char_def split: option.splits)
  qed
qed

lemma scan_string_encoded:
  "scan_string (concat (map escape_char s) @ CHR 0x22 # rest)
     = Some (s, Suc (length (concat (map escape_char s))))"
  by (induction s) (simp_all add: scan_string_escape)

lemma is_digit_char_of: "(d::nat) < 10 \<Longrightarrow> is_digit (char_of (48 + d))"
  by (simp add: is_digit_def)

lemma digits_of_digits: "\<forall>c \<in> set (digits_of n). is_digit c"
proof (induction n rule: digits_of.induct)
  case (1 n)
  show ?case
    by (subst digits_of.simps) (use 1 in \<open>auto simp: is_digit_char_of\<close>)
qed

lemma digits_of_nonempty: "digits_of n \<noteq> []"
  by (subst digits_of.simps) simp

lemma nat_of_digits_snoc:
  "nat_of_digits (ds @ [c]) = 10 * nat_of_digits ds + (of_char c - 48)"
  by (simp add: nat_of_digits_def)

lemma nat_of_digits_digits_of: "nat_of_digits (digits_of n) = n"
proof (induction n rule: digits_of.induct)
  case (1 n)
  show ?case
  proof (cases "n < 10")
    case True
    then show ?thesis
      by (subst digits_of.simps) (simp add: nat_of_digits_def)
  next
    case False
    have "n mod 10 < 10" by simp
    then have "(of_char (char_of (48 + n mod 10) :: char) :: nat) = 48 + n mod 10"
      by simp
    with False 1 show ?thesis
      by (subst digits_of.simps) (simp add: nat_of_digits_snoc)
  qed
qed

lemma hd_digits_of: "hd (digits_of n) = CHR ''0'' \<Longrightarrow> n = 0"
proof (induction n rule: digits_of.induct)
  case (1 n)
  show ?case
  proof (cases "n < 10")
    case True
    have "(of_char (char_of (48 + n) :: char) :: nat) = 48 + n"
      using True by simp
    moreover have "hd (digits_of n) = char_of (48 + n)"
      using True by (subst digits_of.simps) simp
    ultimately have "(of_char (CHR ''0'') :: nat) = 48 + n"
      using 1(2) by simp
    then show ?thesis by simp
  next
    case False
    then have "hd (digits_of n) = hd (digits_of (n div 10))"
      by (subst digits_of.simps) (simp add: digits_of_nonempty)
    with 1 False have "n div 10 = 0" by simp
    with False show ?thesis by simp
  qed
qed

lemma length_digits_of_0: "length (digits_of 0) = 1"
  by (subst digits_of.simps) simp

lemma takeWhile_digits:
  "delimited rest \<Longrightarrow> takeWhile is_digit (digits_of n @ rest) = digits_of n"
  using digits_of_digits[of n]
  by (cases rest) (auto simp: delimited_def takeWhile_append2 takeWhile_append)

lemma scan_nat_digits_of:
  assumes "delimited rest"
  shows "scan_nat (digits_of n @ rest) = Some (n, length (digits_of n))"
proof -
  have "hd (digits_of n) = CHR ''0'' \<Longrightarrow> length (digits_of n) = 1"
    using hd_digits_of[of n] length_digits_of_0 by auto
  then show ?thesis
    using takeWhile_digits[OF assms, of n] digits_of_nonempty[of n]
    by (auto simp: scan_nat_def nat_of_digits_digits_of Let_def)
qed

lemma lex_punct:
  "lex (CHR '' '' # cs) = lex cs"
  "lex (CHR ''{'' # cs) = map_option ((#) LBRACE) (lex cs)"
  "lex (CHR ''}'' # cs) = map_option ((#) RBRACE) (lex cs)"
  "lex (CHR ''['' # cs) = map_option ((#) LBRACKET) (lex cs)"
  "lex (CHR '']'' # cs) = map_option ((#) RBRACKET) (lex cs)"
  "lex (CHR '','' # cs) = map_option ((#) COMMA) (lex cs)"
  "lex (CHR '':'' # cs) = map_option ((#) COLON) (lex cs)"
  by (simp_all add: is_ws_def)

lemma lex_literals:
  "lex (''null'' @ cs) = map_option ((#) TNULL) (lex cs)"
  "lex (''true'' @ cs) = map_option ((#) TTRUE) (lex cs)"
  "lex (''false'' @ cs) = map_option ((#) TFALSE) (lex cs)"
  by (simp_all add: is_ws_def is_digit_def)

lemma lex_string:
  "lex (encode_basestring_ascii s @ cs) = map_option ((#) (TSTRING s)) (lex cs)"
proof -
  have "lex (CHR 0x22 # (concat (map escape_char s) @ CHR 0x22 # cs))
        = map_option ((#) (TSTRING s)) (lex cs)"
    by (simp add: is_ws_def scan_string_encoded del: scan_string.simps)
  then show ?thesis by (simp add: encode_basestring_ascii_def)
qed

lemma lex_digit_start:
  assumes "is_digit c"
  shows "lex (c # cs) =
     (case scan_nat (c # cs) of
        None \<Rightarrow> None
      | Some (m, n) \<Rightarrow> map_option ((#) (TINT (int m))) (lex (drop (n - 1) cs)))"
proof -
  have "c \<notin> {CHR '' '', CHR 0x09, CHR 0x0A, CHR 0x0D, CHR ''{'', CHR ''}'', CHR ''['', CHR '']'',
              CHR '','', CHR '':'', CHR 0x22, CHR ''-''}"
    using assms by (auto simp: is_digit_def)
  then show ?thesis using assms by (simp add: is_ws_def)
qed

lemma lex_int:
  assumes "delimited cs"
  shows "lex (int_repr i @ cs) = map_option ((#) (TINT i)) (lex cs)"
proof (cases "i < 0")
  case True
  have "lex (CHR ''-'' # (digits_of (nat (- i)) @ cs)) = map_option ((#) (TINT i)) (lex cs)"
    using True by (simp add: is_ws_def scan_nat_digits_of[OF assms])
  then show ?thesis using True by (simp add: int_repr_def)
next
  case False
  obtain c ds where d: "digits_of (nat i) = c # ds"
    using digits_of_nonempty[of "nat i"] by (cases "digits_of (nat i)") auto
  have c: "is_digit c" using digits_of_digits[of "nat i"] d by simp
  have s: "scan_nat (c # ds @ cs) = Some (nat i, Suc (length ds))"
    using scan_nat_digits_of[OF assms, of "nat i"] d by simp
  have "lex (c # ds @ cs) = map_option ((#) (TINT i)) (lex cs)"
    using False by (simp add: lex_digit_start[OF c] s del: lex.simps)
  then show ?thesis using False d by (simp add: int_repr_def)
qed

declare lex.simps [simp del]

lemma delimited_simps [simp]:
  "delimited []" "delimited (CHR '','' # cs)" "delimited (CHR '']'' # cs)"
  "delimited (CHR ''}'' # cs)"
  by (simp_all add: delimited_def is_digit_def)

lemma lex_elems:
  assumes "\<And>v rest. v \<in> set (x # xs) \<Longrightarrow> delimited rest \<Longrightarrow>
             lex (json_dumps v @ rest) = map_option ((@) (tokens_of v)) (lex rest)"
  shows "lex (join '', '' (map json_dumps (x # xs)) @ CHR '']'' # rest)
         = map_option ((@) (join [COMMA] (map tokens_of (x # xs)) @ [RBRACKET])) (lex rest)"
  using assms
proof (induction xs arbitrary: x)
  case Nil
  have "lex (json_dumps x @ CHR '']'' # rest) = map_option ((@) (tokens_of x)) (lex (CHR '']'' # rest))"
    by (rule Nil) simp_all
  then show ?case by (simp add: lex_punct option.map_comp comp_def)
next
  case (Cons y ys)
  let ?tail = "join '', '' (map json_dumps (y # ys)) @ CHR '']'' # rest"
  have IH: "lex ?tail = map_option ((@) (join [COMMA] (map tokens_of (y # ys)) @ [RBRACKET])) (lex rest)"
    by (rule Cons.IH) (use Cons.prems in auto)
  have "lex (json_dumps x @ CHR '','' # CHR '' '' # ?tail)
        = map_option ((@) (tokens_of x)) (lex (CHR '','' # CHR '' '' # ?tail))"
    by (rule Cons.prems) simp_all
  then have "lex (join '', '' (map json_dumps (x # y # ys)) @ CHR '']'' # rest)
        = map_option ((@) (tokens_of x)) (map_option ((#) COMMA) (lex ?tail))"
    by (simp add: lex_punct)
  then show ?case unfolding IH by (simp add: option.map_comp comp_def)
qed

lemma lex_members:
  assumes "\<And>k v rest. (k, v) \<in> set (x # xs) \<Longrightarrow> delimited rest \<Longrightarrow>
             lex (json_dumps v @ rest) = map_option ((@) (tokens_of v)) (lex rest)"
  shows "lex (join '', '' (map (\<lambda>(k, v). encode_basestring_ascii k @ '': '' @ json_dumps v) (x # xs))
              @ CHR ''}'' # rest)
         = map_option ((@) (join [COMMA] (map (\<lambda>(k, v). TSTRING k # COLON # tokens_of v) (x # xs))
                            @ [RBRACE])) (lex rest)"
  using assms
proof (induction xs arbitrary: x)
  case Nil
  obtain k v where x: "x = (k, v)" by (cases x)
  have "lex (json_dumps v @ CHR ''}'' # rest) = map_option ((@) (tokens_of v)) (lex (CHR ''}'' # rest))"
    by (rule Nil[of k]) (simp_all add: x)
  then show ?case by (simp add: x lex_string lex_punct option.map_comp comp_def)
next
  case (Cons y ys)
  obtain k v where x: "x = (k, v)" by (cases x)
  let ?f = "\<lambda>(k, v). encode_basestring_ascii k @ '': '' @ json_dumps v"
  let ?g = "\<lambda>(k, v). TSTRING k # COLON # tokens_of v"
  let ?tail = "join '', '' (map ?f (y # ys)) @ CHR ''}'' # rest"
  have IH: "lex ?tail = map_option ((@) (join [COMMA] (map ?g (y # ys)) @ [RBRACE])) (lex rest)"
  proof (rule Cons.IH)
    fix k v rest
    assume "(k, v) \<in> set (y # ys)" "delimited rest"
    then show "lex (json_dumps v @ rest) = map_option ((@) (tokens_of v)) (lex rest)"
      using Cons.prems[of k v rest] by simp
  qed
  have "lex (json_dumps v @ CHR '','' # CHR '' '' # ?tail)
        = map_option ((@) (tokens_of v)) (lex (CHR '','' # CHR '' '' # ?tail))"
    by (rule Cons.prems[of k]) (simp_all add: x)
  then have "lex (join '', '' (map ?f (x # y # ys)) @ CHR ''}'' # rest)
        = map_option ((@) (TSTRING k # COLON # tokens_of v)) (map_option ((#) COMMA) (lex ?tail))"
    by (simp add: x lex_string lex_punct option.map_comp comp_def)
  then show ?case unfolding IH by (simp add: x option.map_comp comp_def)
qed

lemma lex_json_dumps:
  "delimited rest \<Longrightarrow> lex (json_dumps v @ rest) = map_option ((@) (tokens_of v)) (lex rest)"
proof (induction v arbitrary: rest)
  case JNull
  then show ?case using lex_literals(1)[of rest] by (simp add: option.map_comp comp_def)
next
  case (JBool b)
  then show ?case using lex_literals(2,3)[of rest] by (simp add: option.map_comp comp_def)
next
  case (JInt i)
  then show ?case by (simp add: lex_int)
next
  case (JString s)
  then show ?case by (simp add: lex_string)
next
  case (JArray vs)
  show ?case
  proof (cases vs)
    case Nil
    then show ?thesis by (simp add: lex_punct option.map_comp comp_def)
  next
    case (Cons x xs)
    have "lex (join '', '' (map json_dumps (x # xs)) @ CHR '']'' # rest)
         = map_option ((@) (join [COMMA] (map tokens_of (x # xs)) @ [RBRACKET])) (lex rest)"
      by (rule lex_elems) (use JArray.IH Cons in auto)
    then show ?thesis using Cons by (simp add: lex_punct option.map_comp comp_def)
  qed
next
  case (JObject kvs)
  show ?case
  proof (cases kvs)
    case Nil
    then show ?thesis by (simp add: lex_punct option.map_comp comp_def)
  next
    case (Cons x xs)
    let ?f = "\<lambda>(k, v). encode_basestring_ascii k @ '': '' @ json_dumps v"
    let ?g = "\<lambda>(k, v). TSTRING k # COLON # tokens_of v"
    have "lex (join '', '' (map ?f (x # xs)) @ CHR ''}'' # rest)
         = map_option ((@) (join [COMMA] (map ?g (x # xs)) @ [RBRACE])) (lex rest)"
    proof (rule lex_members)
      fix k v rest
      assume "(k, v) \<in> set (x # xs)" "delimited rest"
      then show "lex (json_dumps v @ rest) = map_option ((@) (tokens_of v)) (lex rest)"
        using JObject.IH[of "(k, v)" v rest] Cons by (auto simp: snds.simps)
    qed
    then show ?thesis using Cons by (simp add: lex_punct option.map_comp comp_def)
  qed
qed

lemma lex_Nil: "lex [] = Some []"
  by (simp add: lex.simps)

lemma json_loads_dumps: "wf_json v \<Longrightarrow> json_loads (json_dumps v) = Some v"
proof -
  assume wf: "wf_json v"
  have l: "lex (json_dumps v) = Some (tokens_of v)"
    using lex_json_dumps[of "[]" v] by (simp add: lex_Nil)
  have "parse_tokens (tokens_of v @ []) (Some (MValue, [])) = parse_tokens [] (put_value v [])"
    by (rule parse_tokens_of[OF wf]) (simp add: value_mode_def)
  then show ?thesis by (simp add: json_loads_def l)
qed

subsection \<open>Parsed values are values Python can hold\<close>













section \<open>Properties of the like toggle\<close>

lemma Novel_get_pk: "Novel_get db n = Inr novel \<Longrightarrow> novel_pk novel = n"
  by (auto simp: Novel_get_def find_Some_iff split: option.splits)

lemma Novel_novelstats_pk:
  "Novel_novelstats db novel = Inr st \<Longrightarrow> stats_novel st = novel_pk novel"
  by (auto simp: Novel_novelstats_def find_Some_iff split: option.splits)

lemma like_when_absent:
  assumes "Novel_get db n = Inr novel" and "Novel_novelstats db novel = Inr st"
    and "like_rows db n (user_pk u) = []"
  shows "NovelLikeAPI_create n u db =
     (Inr \<lparr>resp_status = HTTP_204_NO_CONTENT, resp_data = JObject []\<rparr>,
      db\<lparr>NovelLike_objects := NovelLike_objects db @ [\<lparr>like_novel = n, like_user = user_pk u\<rparr>],
         NovelStats_objects :=
           map (\<lambda>r. if stats_novel r = n then st\<lparr>like_count := like_count r + 1\<rparr> else r)
               (NovelStats_objects db)\<rparr>)"
  using assms Novel_get_pk[OF assms(1)] Novel_novelstats_pk[OF assms(2)]
  by (simp add: NovelLikeAPI_create_def NovelLikeAPI_perform_create_def like_rows_def
      Novel_novelstats_def NovelStats_save_F_def Let_def)

lemma like_when_present:
  assumes "Novel_get db n = Inr novel" and "Novel_novelstats db novel = Inr st"
    and "like_rows db n (user_pk u) \<noteq> []"
  shows "NovelLikeAPI_create n u db =
     (Inr \<lparr>resp_status = HTTP_201_CREATED,
           resp_data = JObject [(''novel'', JInt (int n)), (''user'', JInt (int (user_pk u)))]\<rparr>,
      db\<lparr>NovelLike_objects := filter (\<lambda>l. \<not> (like_novel l = n \<and> like_user l = user_pk u)) (NovelLike_objects db),
         NovelStats_objects :=
           map (\<lambda>r. if stats_novel r = n then st\<lparr>like_count := like_count r - 1\<rparr> else r)
               (NovelStats_objects db)\<rparr>)"
  using assms Novel_get_pk[OF assms(1)] Novel_novelstats_pk[OF assms(2)]
  by (simp add: NovelLikeAPI_create_def NovelLikeAPI_perform_create_def like_rows_def
      Novel_novelstats_def NovelStats_save_F_def Let_def)

lemma find_stats_map:
  assumes "find (\<lambda>s. stats_novel s = n) rows = Some st" and "\<And>r. stats_novel (f r) = n"
  shows "find (\<lambda>s. stats_novel s = n) (map (\<lambda>r. if stats_novel r = n then f r else r) rows)
         = Some (f st)"
  using assms by (induction rows) (auto split: if_splits)

text \<open>
  C1. The claim: the like endpoint answers 201 when a like is created and 204
  when a like is removed. The code at the input of the claim's first half: user
  7 has no like row on novel 1; the request creates the row, and the answer is
  204, not 201.
\<close>

theorem like_created_answers_204:
  "like_rows db0 1 (user_pk user7) = [] \<and>
   map_sum id resp_status (fst (NovelLikeAPI_create 1 user7 db0)) = Inr 204 \<and>
   like_rows (snd (NovelLikeAPI_create 1 user7 db0)) 1 (user_pk user7)
     = [\<lparr>like_novel = 1, like_user = 7\<rparr>]"
  by (simp add: NovelLikeAPI_create_def NovelLikeAPI_perform_create_def Novel_get_def
      Novel_novelstats_def NovelStats_save_F_def like_rows_def db0_def user7_def
      HTTP_204_NO_CONTENT_def HTTP_201_CREATED_def)

text \<open>
  C8. Where a user has no like row on a novel, two like requests in succession
  leave no like row of that user on that novel, the like table as it was, and
  the novel's like counter at its value before the first request.
\<close>

theorem like_twice_restores:
  assumes g: "Novel_get db n = Inr novel" and s: "Novel_novelstats db novel = Inr st"
    and e: "like_rows db n (user_pk u) = []"
    and c1: "NovelLikeAPI_create n u db = (r1, db1)"
    and c2: "NovelLikeAPI_create n u db1 = (r2, db2)"
  shows "like_rows db2 n (user_pk u) = [] \<and> like_count_of db2 n = like_count_of db n \<and>
         NovelLike_objects db2 = NovelLike_objects db"
proof -
  have pk: "novel_pk novel = n" using g by (rule Novel_get_pk)
  have spk: "stats_novel st = n" using Novel_novelstats_pk[OF s] pk by simp
  have fs: "find (\<lambda>s. stats_novel s = n) (NovelStats_objects db) = Some st"
    using s pk by (auto simp: Novel_novelstats_def split: option.splits)
  define st1 where "st1 = st\<lparr>like_count := like_count st + 1\<rparr>"
  have d1: "db1 = db\<lparr>NovelLike_objects := NovelLike_objects db @ [\<lparr>like_novel = n, like_user = user_pk u\<rparr>],
         NovelStats_objects :=
           map (\<lambda>r. if stats_novel r = n then st\<lparr>like_count := like_count r + 1\<rparr> else r)
               (NovelStats_objects db)\<rparr>"
    using c1 like_when_absent[OF g s e] by simp
  have g1: "Novel_get db1 n = Inr novel" using g by (simp add: Novel_get_def d1)
  have fs1: "find (\<lambda>s. stats_novel s = n) (NovelStats_objects db1) = Some st1"
    unfolding d1 st1_def
    using find_stats_map[OF fs, of "\<lambda>r. st\<lparr>like_count := like_count r + 1\<rparr>"] spk
    by simp
  have s1: "Novel_novelstats db1 novel = Inr st1"
    using fs1 pk by (simp add: Novel_novelstats_def)
  have l1: "like_rows db1 n (user_pk u) \<noteq> []"
    by (simp add: d1 like_rows_def)
  have nf: "filter (\<lambda>l. \<not> (like_novel l = n \<and> like_user l = user_pk u)) (NovelLike_objects db) = NovelLike_objects db"
    using e by (simp add: like_rows_def filter_empty_conv)
  have d2: "db2 = db1\<lparr>NovelLike_objects :=
           filter (\<lambda>l. \<not> (like_novel l = n \<and> like_user l = user_pk u)) (NovelLike_objects db1),
         NovelStats_objects :=
           map (\<lambda>r. if stats_novel r = n then st1\<lparr>like_count := like_count r - 1\<rparr> else r)
               (NovelStats_objects db1)\<rparr>"
    using c2 like_when_present[OF g1 s1 l1] by simp
  have lk2: "NovelLike_objects db2 = NovelLike_objects db"
    unfolding d2 using nf by (simp add: d1)
  have fs2: "find (\<lambda>s. stats_novel s = n) (NovelStats_objects db2)
             = Some (st1\<lparr>like_count := like_count st1 - 1\<rparr>)"
    unfolding d2
    using find_stats_map[OF fs1, of "\<lambda>r. st1\<lparr>like_count := like_count r - 1\<rparr>"] spk
    by (simp add: st1_def)
  have "like_count_of db2 n = like_count_of db n"
    using fs fs2 by (simp add: like_count_of_def st1_def)
  moreover have "like_rows db2 n (user_pk u) = []"
    using e lk2 by (simp add: like_rows_def)
  ultimately show ?thesis using lk2 by simp
qed

theorem like_twice_restores_witness:
  "like_rows (snd (NovelLikeAPI_create 1 user7 (snd (NovelLikeAPI_create 1 user7 db0)))) 1 7 = [] \<and>
   like_count_of (snd (NovelLikeAPI_create 1 user7 (snd (NovelLikeAPI_create 1 user7 db0)))) 1
     = Some 0"
proof -
  have g: "Novel_get db0 1 = Inr (hd (Novel_objects db0))"
    by (simp add: Novel_get_def db0_def)
  have s: "Novel_novelstats db0 (hd (Novel_objects db0)) = Inr (hd (NovelStats_objects db0))"
    by (simp add: Novel_novelstats_def db0_def)
  have e: "like_rows db0 1 (user_pk user7) = []"
    by (simp add: like_rows_def db0_def)
  have c: "like_count_of db0 1 = Some 0" "user_pk user7 = 7"
    by (simp_all add: like_count_of_def db0_def user7_def)
  show ?thesis
    using like_twice_restores[OF g s e prod.collapse[symmetric] prod.collapse[symmetric]] c
    by simp
qed

section \<open>Facts about the building blocks\<close>

lemma requests_post_cases:
  assumes "requests_post rq w = (res, w')"
  shows "sent w' = sent w @ [rq] \<and> db_state w' = db_state w \<and>
         (case upstream w of
            [] \<Rightarrow> res = Inl ConnectionError \<and> upstream w' = []
          | r # rs \<Rightarrow> res = Inr r \<and> upstream w' = rs)"
  using assms by (auto simp: requests_post_def split: list.splits)

lemma retrieve_question_cases:
  assumes "retrieve_question_from_ai_json env dh w = (res, w')"
  shows "sent w' = sent w @ [\<lparr>req_url = question_url env, req_files = [],
                              req_data = [(''dialog_history'', json_dumps dh)]\<rparr>] \<and>
         db_state w' = db_state w \<and>
         (case upstream w of
            [] \<Rightarrow> res = Inl ConnectionError \<and> upstream w' = []
          | r # rs \<Rightarrow> upstream w' = rs \<and>
              res = (if status_code r \<noteq> 200 then Inl RequestAIServerError
                     else json_of_response r))"
  using assms
  by (auto simp: retrieve_question_from_ai_json_def requests_post_def Let_def
           split: list.splits if_splits)

lemma requests_post_Inr:
  assumes "requests_post rq w = (Inr r, w')"
  shows "\<exists>rs. upstream w = r # rs \<and> w' = w\<lparr>upstream := rs, sent := sent w @ [rq]\<rparr>"
  using assms by (auto simp: requests_post_def split: list.splits)

lemma retrieve_question_Inr:
  assumes "retrieve_question_from_ai_json env dh w = (Inr j, w')"
  shows "\<exists>r rs. upstream w = r # rs \<and> status_code r = 200 \<and> json_loads (body r) = Some j \<and>
           w' = w\<lparr>upstream := rs,
                  sent := sent w @ [\<lparr>req_url = question_url env, req_files = [],
                                     req_data = [(''dialog_history'', json_dumps dh)]\<rparr>]\<rparr>"
  using assms
  by (auto simp: retrieve_question_from_ai_json_def requests_post_def Let_def json_of_response_def
           split: list.splits if_splits option.splits)

lemma py_pop_get: "py_pop j k = Inr (v, j') \<Longrightarrow> py_get j k = Inr v"
  by (auto simp: py_pop_def py_get_def split: json.splits option.splits)

lemma map_of_filter_other:
  "k' \<noteq> k \<Longrightarrow> map_of (filter (\<lambda>kv. fst kv \<noteq> k) kvs) k' = map_of kvs k'"
  by (induction kvs) auto

lemma py_pop_get_other:
  "py_pop j k = Inr (v, j') \<Longrightarrow> k' \<noteq> k \<Longrightarrow> py_get j' k' = py_get j k'"
  by (auto simp: py_pop_def py_get_def map_of_filter_other split: json.splits option.splits)

lemma py_pop_pop_other:
  "py_pop j k = Inr (v, j') \<Longrightarrow> k' \<noteq> k \<Longrightarrow> py_pop j' k' = Inr (v', j'') \<Longrightarrow> py_get j k' = Inr v'"
  using py_pop_get_other[of j k v j' k'] py_pop_get[of j' k' v' j''] by simp

lemma with_query_Inr:
  "novel_content_with_query j c = Inr c' \<Longrightarrow>
   \<exists>q1 q2 q3. py_get j ''query1'' = Inr q1 \<and> py_get j ''query2'' = Inr q2 \<and>
              py_get j ''query3'' = Inr q3 \<and> c' = c\<lparr>query1 := q1, query2 := q2, query3 := q3\<rparr>"
  by (auto simp: novel_content_with_query_def split: sum.splits)

lemma save_row_present:
  "\<exists>r \<in> set rows. pk r = pk obj \<Longrightarrow>
   save_row pk obj rows = map (\<lambda>r. if pk r = pk obj then obj else r) rows"
  by (simp add: save_row_def)

lemma map_id_fresh:
  "\<forall>r \<in> set rows. pk r \<noteq> k \<Longrightarrow> map (\<lambda>r. if pk r = k then obj else r) rows = rows"
  by (induction rows) auto

lemma continue_serializer_contents:
  "NovelContinueSerializer_save rq d = Inr (novel, nc, img, q, d1) \<Longrightarrow>
   NovelContent_objects d1 = NovelContent_objects d \<and> Novel_objects d1 = Novel_objects d"
  by (auto simp: NovelContinueSerializer_save_def Let_def split: option.splits if_splits)

lemma continue_persist_sent:
  "NovelContinueAPI_post_persist novel nc img q c s r2 w = (res, w') \<Longrightarrow>
   sent w' = sent w \<and> upstream w' = upstream w \<and> (\<exists>resp. res = Inr resp \<and> resp_status resp = 200 \<or> res = Inl AttributeError)"
  by (auto simp: NovelContinueAPI_post_persist_def Let_def novel_content_with_query_def py_get_def HTTP_200_OK_def
           split: sum.splits prod.splits json.splits option.splits)


lemma find_mem: "find P xs = Some x \<Longrightarrow> x \<in> set xs \<and> P x"
  by (auto simp: find_Some_iff)

lemma find_map_replace:
  assumes "find (\<lambda>r. pk r = k) xs = Some x" and "pk y = k"
  shows "find (\<lambda>r. pk r = k) (map (\<lambda>r. if pk r = k then y else r) xs) = Some y"
  using assms by (induction xs) (auto split: if_splits)


lemma assign_captions_Inr:
  "assign_captions imgs caps i = Inr imgs' \<Longrightarrow>
   \<exists>cs. length cs = length imgs \<and>
        imgs' = map2 (\<lambda>img c. img\<lparr>caption := c\<rparr>) imgs cs \<and>
        (\<forall>k < length imgs. py_index caps (i + k) = Inr (cs ! k))"
proof (induction imgs arbitrary: i imgs')
  case Nil
  then show ?case by simp
next
  case (Cons img rest)
  from Cons.prems obtain c rest' where
    c: "py_index caps i = Inr c" and r: "assign_captions rest caps (Suc i) = Inr rest'"
    and e: "imgs' = img\<lparr>caption := c\<rparr> # rest'"
    by (auto split: sum.splits)
  from Cons.IH[OF r] obtain cs where
    cs: "length cs = length rest" "rest' = map2 (\<lambda>img c. img\<lparr>caption := c\<rparr>) rest cs"
        "\<forall>k < length rest. py_index caps (Suc i + k) = Inr (cs ! k)"
    by blast
  have "\<forall>k < length (img # rest). py_index caps (i + k) = Inr ((c # cs) ! k)"
  proof (intro allI impI)
    fix k assume "k < length (img # rest)"
    then show "py_index caps (i + k) = Inr ((c # cs) ! k)"
      using c cs(3) by (cases k) auto
  qed
  then show ?case
    using cs(1,2) e by (intro exI[of _ "c # cs"]) simp
qed

lemma find_distinct_nth:
  assumes "distinct (map f xs)" and "k < length xs"
  shows "find (\<lambda>x. f x = f (xs ! k)) xs = Some (xs ! k)"
proof -
  have "\<forall>j < k. f (xs ! j) \<noteq> f (xs ! k)"
  proof (intro allI impI)
    fix j assume "j < k"
    then have "j < length (map f xs)" "k < length (map f xs)" "j \<noteq> k"
      using assms(2) by simp_all
    then have "map f xs ! j \<noteq> map f xs ! k"
      using assms(1) unfolding distinct_conv_nth by blast
    then show "f (xs ! j) \<noteq> f (xs ! k)" using \<open>j < k\<close> assms(2) by simp
  qed
  then show ?thesis using assms(2) by (auto simp: find_Some_iff intro!: exI[of _ k])
qed

lemma bulk_update_new_rows:
  assumes len: "length cs = length imgs"
    and dis: "distinct (map image_pk imgs)"
    and old: "\<forall>r \<in> set rows. image_pk r \<notin> image_pk ` set imgs"
  shows "map (\<lambda>r. case find (\<lambda>obj. image_pk obj = image_pk r)
                           (map2 (\<lambda>img c. img\<lparr>caption := c\<rparr>) imgs cs) of
                     None \<Rightarrow> r
                   | Some obj \<Rightarrow> r\<lparr>caption := caption obj\<rparr>) (rows @ imgs)
         = rows @ map2 (\<lambda>img c. img\<lparr>caption := c\<rparr>) imgs cs"
proof -
  let ?objs = "map2 (\<lambda>img c. img\<lparr>caption := c\<rparr>) imgs cs"
  let ?upd = "\<lambda>r. case find (\<lambda>obj. image_pk obj = image_pk r) ?objs of
                     None \<Rightarrow> r | Some obj \<Rightarrow> r\<lparr>caption := caption obj\<rparr>"
  have pks: "map image_pk ?objs = map image_pk imgs"
    using len[symmetric] by (induction imgs cs rule: list_induct2) auto
  have lo: "length ?objs = length imgs" using len by simp
  have "map ?upd rows = rows"
  proof (rule map_idI)
    fix r assume "r \<in> set rows"
    then have "image_pk r \<notin> image_pk ` set ?objs"
      using old pks by (metis set_map)
    then have "\<forall>obj \<in> set ?objs. image_pk obj \<noteq> image_pk r"
      by (metis imageI)
    then have "find (\<lambda>obj. image_pk obj = image_pk r) ?objs = None"
      unfolding find_None_iff by blast
    then show "?upd r = r" by simp
  qed
  moreover have "map ?upd imgs = ?objs"
  proof (rule nth_equalityI)
    show "length (map ?upd imgs) = length ?objs" using lo by simp
  next
    fix k assume "k < length (map ?upd imgs)"
    then have k: "k < length imgs" by simp
    have ok: "?objs ! k = (imgs ! k)\<lparr>caption := cs ! k\<rparr>" using k len by simp
    have "distinct (map image_pk ?objs)" using dis pks by simp
    from find_distinct_nth[OF this, of k] k lo
    have "find (\<lambda>obj. image_pk obj = image_pk (?objs ! k)) ?objs = Some (?objs ! k)" by simp
    then have "find (\<lambda>obj. image_pk obj = image_pk (imgs ! k)) ?objs = Some (?objs ! k)"
      using ok by simp
    then show "map ?upd imgs ! k = ?objs ! k" using k ok by simp
  qed
  ultimately show ?thesis by simp
qed

lemma save_row_last:
  assumes "\<forall>r \<in> set rows. pk r \<noteq> pk obj" and "pk old = pk obj"
  shows "save_row pk obj (rows @ [old]) = rows @ [obj]"
proof -
  have "map (\<lambda>r. if pk r = pk obj then obj else r) rows = rows"
    by (rule map_id_fresh[OF assms(1)])
  then show ?thesis using assms(2) by (simp add: save_row_def)
qed

lemma map_fst_enumerate_fun:
  "map (\<lambda>x. f (fst x)) (enumerate n xs) = map f [n..<n + length xs]"
proof (induction xs arbitrary: n)
  case Nil
  then show ?case by simp
next
  case (Cons a xs)
  have "[n..<n + length (a # xs)] = n # [Suc n..<n + length (a # xs)]"
    by (rule upt_conv_Cons) simp
  moreover have "n + length (a # xs) = Suc n + length xs" by simp
  ultimately have "[n..<n + length (a # xs)] = n # [Suc n..<Suc n + length xs]"
    by (simp only:)
  then show ?case using Cons[of "Suc n"] by (simp del: upt_Suc)
qed

lemma map_snd_enumerate_fun: "map (\<lambda>x. snd x) (enumerate n xs) = xs"
  by (induction xs arbitrary: n) simp_all

lemma start_images_facts:
  "length (start_images ni cid names) = length names"
  "map image_pk (start_images ni cid names) = map ((+) ni) [0..<length names]"
  "map image_file (start_images ni cid names) = names"
  "\<forall>i \<in> set (start_images ni cid names). image_content i = cid \<and> ni \<le> image_pk i"
proof -
  show "length (start_images ni cid names) = length names"
    by (simp add: start_images_def)
  have "map image_pk (start_images ni cid names) = map (\<lambda>x. ni + fst x) (enumerate 0 names)"
    by (simp add: start_images_def case_prod_beta comp_def)
  also have "\<dots> = map ((+) ni) [0..<length names]"
    using map_fst_enumerate_fun[of "(+) ni" 0 names] by simp
  finally show "map image_pk (start_images ni cid names) = map ((+) ni) [0..<length names]" .
  have "map image_file (start_images ni cid names) = map (\<lambda>x. snd x) (enumerate 0 names)"
    by (simp add: start_images_def case_prod_beta comp_def)
  also have "\<dots> = names"
    by (rule map_snd_enumerate_fun)
  finally show "map image_file (start_images ni cid names) = names" .
  show "\<forall>i \<in> set (start_images ni cid names). image_content i = cid \<and> ni \<le> image_pk i"
    by (auto simp: start_images_def)
qed

lemma start_serializer_facts:
  assumes "NovelStartSerializer_save env u rq d = Inr (novel, nc, imgs, d1)"
  shows "\<exists>g. genre_field env (sr_genre rq) = Some g \<and> sr_images rq \<noteq> [] \<and>
     novel = \<lparr>novel_pk = next_novel_pk d, author = user_pk u, title = [], genre = g,
              status = DRAFT, prompt = [], cover_img = [], original_cover_img = []\<rparr> \<and>
     nc = \<lparr>content_pk = next_content_pk d, content_novel = next_novel_pk d, step = 1,
           content = JNull, chosen_query = JNull, query1 = JNull, query2 = JNull,
           query3 = JNull\<rparr> \<and>
     imgs = start_images (next_image_pk d) (next_content_pk d) (sr_images rq) \<and>
     d1 = d\<lparr>Novel_objects := Novel_objects d @ [novel],
            NovelStats_objects := NovelStats_objects d @
              [\<lparr>stats_novel = next_novel_pk d, hit_count = 0, like_count = 0,
                comment_count = 0\<rparr>],
            NovelContent_objects := NovelContent_objects d @ [nc],
            NovelContentImage_objects := NovelContentImage_objects d @ imgs,
            next_novel_pk := Suc (next_novel_pk d),
            next_content_pk := Suc (next_content_pk d),
            next_image_pk := next_image_pk d + length imgs\<rparr>"
  using assms
  by (auto simp: NovelStartSerializer_save_def Let_def start_images_def
           split: option.splits if_splits)

subsection \<open>The example run\<close>

lemma start_example:
  "NovelStartAPI_post env0 (Some author2) start_rq (world0 [start_answer, question_answer]) =
     (Inr start_response, world_after_start)"
  by code_simp

lemma continue_example:
  "NovelContinueAPI_post env0 (Some author2) continue_rq
      (world_started [sequence_answer, question_answer]) =
     (Inr continue_response, world_after_continue)"
  by code_simp

lemma continue_timeout_example:
  "NovelContinueAPI_post env0 (Some author2) continue_rq (world_started [server_error]) =
     (Inr \<lparr>resp_status = 408, resp_data = JObject []\<rparr>,
      \<lparr>db_state = db_started
          \<lparr>NovelContentImage_objects := NovelContentImage_objects db_started @
              [\<lparr>image_pk = 3, image_content = 2, image_file = ''up/c.png'', caption = JNull\<rparr>],
           next_image_pk := 4\<rparr>,
       upstream = [], sent = [sequence_rq]\<rparr>)"
  by code_simp

lemma continue_question_failure_example:
  "NovelContinueAPI_post env0 (Some author2) continue_rq
      (world_started [sequence_answer, server_error]) =
     (Inl RequestAIServerError,
      \<lparr>db_state = db_started
          \<lparr>NovelContentImage_objects := NovelContentImage_objects db_started @
              [\<lparr>image_pk = 3, image_content = 2, image_file = ''up/c.png'', caption = JNull\<rparr>],
           next_image_pk := 4\<rparr>,
       upstream = [],
       sent = [sequence_rq, question_rq (JArray [JString ''h1'', JString ''h2'', JString ''h3''])]\<rparr>)"
  by code_simp


lemma db0_invariant: "db_invariant db0"
  by (simp add: db_invariant_def db0_def)

lemma db_started_invariant: "db_invariant db_started"
  by (simp add: db_invariant_def db_started_def)

section \<open>Which novels the read endpoints serve\<close>





section \<open>Continue\<close>

lemma continue_success_cases:
  assumes "NovelContinueAPI_post env user rq w = (Inr resp, w')" and "resp_status resp = 200"
  obtains novel nc img q d1 dh0 dh r1 rs1 j1 cap story dh' r2 rs2 j2 where
    "NovelContinueSerializer_save rq (db_state w) = Inr (novel, nc, img, q, d1)"
    "json_loads (prompt novel) = Some dh0"
    "py_get dh0 ''dialog_history'' = Inr dh"
    "upstream w = r1 # r2 # rs2"
    "status_code r1 = 200" "json_loads (body r1) = Some j1"
    "py_get j1 ''caption'' = Inr cap" "py_get j1 ''korean_answer'' = Inr story"
    "py_get j1 ''dialog_history'' = Inr dh'"
    "status_code r2 = 200" "json_loads (body r2) = Some j2"
    "NovelContinueAPI_post_persist novel nc img q cap story j2
       \<lparr>db_state = d1, upstream = rs2,
        sent = sent w @ [\<lparr>req_url = sequence_url env,
                          req_files = [(''image'', filename_of (image_file img))],
                          req_data = [(''previous_question'', json_dumps q),
                                      (''dialog_history'', json_dumps dh)]\<rparr>,
                         \<lparr>req_url = question_url env, req_files = [],
                          req_data = [(''dialog_history'', json_dumps dh')]\<rparr>]\<rparr>
     = (Inr resp, w')"
proof -
  from assms(1) obtain u where u: "user = Some u"
    by (auto simp: NovelContinueAPI_post_def split: option.splits)
  from assms(1) u obtain novel nc img q d1 where
    ser: "NovelContinueSerializer_save rq (db_state w) = Inr (novel, nc, img, q, d1)"
    by (auto simp: NovelContinueAPI_post_def split: sum.splits)
  note unf = NovelContinueAPI_post_def u ser Let_def
  from assms(1) have dev: "DEV env \<noteq> ''TRUE''"
    by (auto simp: unf split: if_splits)
  from assms(1) dev obtain dh0 where dh0: "json_loads (prompt novel) = Some dh0"
    by (auto simp: unf split: option.splits)
  from assms(1) dev dh0 obtain dh where dh: "py_get dh0 ''dialog_history'' = Inr dh"
    by (auto simp: unf split: sum.splits)
  let ?rq1 = "\<lparr>req_url = sequence_url env,
                 req_files = [(''image'', filename_of (image_file img))],
                 req_data = [(''previous_question'', json_dumps q),
                             (''dialog_history'', json_dumps dh)]\<rparr>"
  let ?w1 = "w\<lparr>db_state := d1\<rparr>"
  obtain res1 w2 where p1: "requests_post ?rq1 ?w1 = (res1, w2)" by (cases "requests_post ?rq1 ?w1")
  from assms(1) dev dh0 dh p1 obtain r1 where r1: "res1 = Inr r1"
    by (auto simp: unf split: sum.splits)
  from requests_post_Inr[OF p1[unfolded r1]] obtain rs1 where
    up1: "upstream w = r1 # rs1" and w2: "w2 = ?w1\<lparr>upstream := rs1, sent := sent w @ [?rq1]\<rparr>"
    by auto
  note unf2 = unf dev dh0 dh p1 r1
  from assms r1 have s1: "status_code r1 = 200"
    by (auto simp: unf2 HTTP_408_REQUEST_TIMEOUT_def split: if_splits)
  from assms(1) s1 obtain j1 where j1: "json_loads (body r1) = Some j1"
    by (auto simp: unf2 json_of_response_def split: option.splits sum.splits)
  then have jr1: "json_of_response r1 = Inr j1" by (simp add: json_of_response_def)
  note unf3 = unf2 s1 jr1
  from assms(1) obtain cap ja where c: "py_pop j1 ''caption'' = Inr (cap, ja)"
    by (auto simp: unf3 split: sum.splits)
  from assms(1) c obtain story jb where s: "py_pop ja ''korean_answer'' = Inr (story, jb)"
    by (auto simp: unf3 split: sum.splits)
  from assms(1) c s obtain dh' jc where d: "py_pop jb ''dialog_history'' = Inr (dh', jc)"
    by (auto simp: unf3 split: sum.splits)
  obtain res2 w3 where q: "retrieve_question_from_ai_json env dh' w2 = (res2, w3)"
    by (cases "retrieve_question_from_ai_json env dh' w2")
  from assms(1) c s d q obtain j2 where j2: "res2 = Inr j2"
    by (auto simp: unf3 split: sum.splits)
  from retrieve_question_Inr[OF q[unfolded j2]] w2 obtain r2 rs2 where
    up2: "rs1 = r2 # rs2" "status_code r2 = 200" "json_loads (body r2) = Some j2"
    and w3: "w3 = w2\<lparr>upstream := rs2,
               sent := sent w2 @ [\<lparr>req_url = question_url env, req_files = [],
                                   req_data = [(''dialog_history'', json_dumps dh')]\<rparr>]\<rparr>"
    by auto
  have fin: "NovelContinueAPI_post_persist novel nc img q cap story j2 w3 = (Inr resp, w')"
    using assms(1) by (simp add: unf3 c s d q j2)
  have g1: "py_get j1 ''caption'' = Inr cap" using c by (rule py_pop_get)
  have g2: "py_get j1 ''korean_answer'' = Inr story"
    using py_pop_pop_other[OF c _ s] by simp
  have g3: "py_get j1 ''dialog_history'' = Inr dh'"
    using py_pop_pop_other[OF s _ d] py_pop_get_other[OF c, of "''dialog_history''"] by simp
  have w3': "w3 = \<lparr>db_state = d1, upstream = rs2,
        sent = sent w @ [?rq1, \<lparr>req_url = question_url env, req_files = [],
                          req_data = [(''dialog_history'', json_dumps dh')]\<rparr>]\<rparr>"
    unfolding w3 w2 by simp
  show ?thesis
    by (rule that[OF ser dh0 dh _ s1 j1 g1 g2 g3 up2(2,3) fin[unfolded w3']])
       (simp add: up1 up2)
qed

lemma continue_persist_effect:
  assumes p: "NovelContinueAPI_post_persist novel nc img q cap story j2 w = (Inr resp, w')"
    and fresh: "\<forall>c \<in> set (NovelContent_objects (db_state w)).
                  content_pk c < next_content_pk (db_state w)"
    and mem: "nc \<in> set (NovelContent_objects (db_state w))"
  shows "\<exists>q1 q2 q3.
     py_get j2 ''query1'' = Inr q1 \<and> py_get j2 ''query2'' = Inr q2 \<and>
     py_get j2 ''query3'' = Inr q3 \<and>
     NovelContent_objects (db_state w') =
       map (\<lambda>c. if content_pk c = content_pk nc
                 then nc\<lparr>content := story, chosen_query := q\<rparr> else c)
           (NovelContent_objects (db_state w)) @
       [\<lparr>content_pk = next_content_pk (db_state w), content_novel = novel_pk novel,
         step = step nc + 1, content = JNull, chosen_query = JNull,
         query1 = q1, query2 = q2, query3 = q3\<rparr>] \<and>
     Novel_objects (db_state w') =
       save_row novel_pk (novel\<lparr>prompt := json_dumps j2\<rparr>) (Novel_objects (db_state w)) \<and>
     resp = \<lparr>resp_status = 200,
             resp_data = JObject
               [(''id'', JInt (int (novel_pk novel))),
                (''newMaterial'', JObject [(''image'', JString (image_file img)),
                                           (''caption'', cap)]),
                (''step'', JInt (step nc)),
                (''story'', story)]\<rparr>"
proof -
  let ?d = "db_state w"
  let ?nc' = "nc\<lparr>content := story, chosen_query := q\<rparr>"
  let ?blank = "\<lparr>content_pk = next_content_pk ?d, content_novel = novel_pk novel,
                  step = step nc + 1, content = JNull, chosen_query = JNull,
                  query1 = JNull, query2 = JNull, query3 = JNull\<rparr>"
  let ?rows1 = "map (\<lambda>c. if content_pk c = content_pk nc then ?nc' else c) (NovelContent_objects ?d)"
  from p obtain nx where wq: "novel_content_with_query j2 ?blank = Inr nx"
    by (auto simp: NovelContinueAPI_post_persist_def Let_def get_next_novel_content_def
        NovelContent_create_def NovelContent_save_def Novel_save_def NovelContentImage_save_def
        split: sum.splits)
  from with_query_Inr[OF wq] obtain q1 q2 q3 where
    qs: "py_get j2 ''query1'' = Inr q1" "py_get j2 ''query2'' = Inr q2"
        "py_get j2 ''query3'' = Inr q3"
    and nx: "nx = ?blank\<lparr>query1 := q1, query2 := q2, query3 := q3\<rparr>" by blast
  have s1: "save_row content_pk ?nc' (NovelContent_objects ?d) = ?rows1"
    using mem by (subst save_row_present) auto
  have fr1: "\<forall>r \<in> set ?rows1. content_pk r \<noteq> next_content_pk ?d"
    using fresh mem by auto
  have pkx: "content_pk nx = next_content_pk ?d" by (simp add: nx)
  have "save_row content_pk nx (?rows1 @ [?blank]) =
        map (\<lambda>r. if content_pk r = content_pk nx then nx else r) (?rows1 @ [?blank])"
    by (rule save_row_present) (simp add: pkx)
  also have "\<dots> = map (\<lambda>r. if content_pk r = next_content_pk ?d then nx else r) ?rows1 @ [nx]"
    by (simp add: pkx)
  also have "map (\<lambda>r. if content_pk r = next_content_pk ?d then nx else r) ?rows1 = ?rows1"
    by (rule map_id_fresh[OF fr1])
  finally have s2: "save_row content_pk nx (?rows1 @ [?blank]) = ?rows1 @ [nx]" .
  have "w' = w\<lparr>db_state :=
      NovelContent_save nx
        (snd (get_next_novel_content ?nc' (novel\<lparr>prompt := json_dumps j2\<rparr>)
          (NovelContent_save ?nc'
            (Novel_save (novel\<lparr>prompt := json_dumps j2\<rparr>)
              (NovelContentImage_save (img\<lparr>caption := cap\<rparr>) ?d)))))\<rparr>"
    and r: "resp = \<lparr>resp_status = 200,
             resp_data = JObject
               [(''id'', JInt (int (novel_pk novel))),
                (''newMaterial'', JObject [(''image'', JString (image_file img)),
                                           (''caption'', cap)]),
                (''step'', JInt (step nc)),
                (''story'', story)]\<rparr>"
    using p wq
    by (auto simp: NovelContinueAPI_post_persist_def Let_def get_next_novel_content_def
        NovelContent_create_def NovelContent_save_def Novel_save_def NovelContentImage_save_def
        HTTP_200_OK_def split: sum.splits)
  then have "NovelContent_objects (db_state w') = ?rows1 @ [nx]"
       and "Novel_objects (db_state w') =
              save_row novel_pk (novel\<lparr>prompt := json_dumps j2\<rparr>) (Novel_objects ?d)"
    using s1 s2
    by (simp_all add: get_next_novel_content_def NovelContent_create_def NovelContent_save_def
        Novel_save_def NovelContentImage_save_def Let_def)
  then show ?thesis using qs r by (simp add: nx)
qed

lemma continue_serializer_facts:
  assumes "NovelContinueSerializer_save rq d = Inr (novel, nc, img, q, d1)"
  shows "find (\<lambda>n. novel_pk n = cr_novel_id rq) (Novel_objects d) = Some novel \<and>
         find (\<lambda>c. content_novel c = cr_novel_id rq \<and> step c = cr_step rq)
              (NovelContent_objects d) = Some nc \<and>
         q = JString (cr_query rq) \<and>
         JString (cr_query rq) \<in> {query1 nc, query2 nc, query3 nc} \<and>
         img = \<lparr>image_pk = next_image_pk d, image_content = content_pk nc,
                image_file = cr_image rq, caption = JNull\<rparr> \<and>
         d1 = d\<lparr>NovelContentImage_objects := NovelContentImage_objects d @ [img],
                next_image_pk := Suc (next_image_pk d)\<rparr>"
proof -
  from assms obtain novel0 where
    n: "find (\<lambda>n. novel_pk n = cr_novel_id rq) (Novel_objects d) = Some novel0"
    by (auto simp: NovelContinueSerializer_save_def split: option.splits)
  then have pk: "novel_pk novel0 = cr_novel_id rq" by (auto simp: find_Some_iff)
  show ?thesis
    using assms n pk
    by (auto simp: NovelContinueSerializer_save_def Let_def split: option.splits if_splits)
qed

text \<open>
  C3, as the claim states it, fails: the question request is an upstream call
  of a Continue request too, and when its answer is not a success the handler
  raises \<open>RequestAIServerError\<close>; it does not return the 408 response.
\<close>

theorem continue_question_failure_raises:
  "status_code server_error \<noteq> 200 \<and>
   fst (NovelContinueAPI_post env0 (Some author2) continue_rq
          (world_started [sequence_answer, server_error])) = Inl RequestAIServerError \<and>
   sent (snd (NovelContinueAPI_post env0 (Some author2) continue_rq
          (world_started [sequence_answer, server_error])))
     = [sequence_rq, question_rq (JArray [JString ''h1'', JString ''h2'', JString ''h3''])]"
proof -
  have "status_code server_error \<noteq> 200" by (simp add: server_error_def)
  then show ?thesis by (simp add: continue_question_failure_example)
qed

text \<open>
  C3, amended. When the sequence request was sent and its answer is not a
  success, the handler returns the 408 response. When the sequence request
  succeeded, the question request was sent and its answer is not a success, the
  handler raises \<open>RequestAIServerError\<close>. In both cases the table of steps is
  as it was: no step was created.
\<close>

theorem continue_upstream_failure:
  assumes "NovelContinueAPI_post env user rq w = (res, w')"
  shows "(\<forall>r rs. upstream w = r # rs \<and> status_code r \<noteq> 200 \<and> sent w' \<noteq> sent w \<longrightarrow>
            res = Inr \<lparr>resp_status = 408, resp_data = JObject []\<rparr> \<and>
            NovelContent_objects (db_state w') = NovelContent_objects (db_state w)) \<and>
         (\<forall>r1 r2 rs. upstream w = r1 # r2 # rs \<and> status_code r2 \<noteq> 200 \<and>
                      length (sent w') = length (sent w) + 2 \<longrightarrow>
            res = Inl RequestAIServerError \<and>
            NovelContent_objects (db_state w') = NovelContent_objects (db_state w))"
  using assms
  unfolding NovelContinueAPI_post_def
  by (auto simp: Let_def HTTP_408_REQUEST_TIMEOUT_def
           split: option.splits sum.splits prod.splits if_splits
           dest!: requests_post_cases retrieve_question_cases continue_serializer_contents
                  continue_persist_sent)

theorem continue_upstream_failure_witness:
  "fst (NovelContinueAPI_post env0 (Some author2) continue_rq (world_started [server_error]))
     = Inr \<lparr>resp_status = 408, resp_data = JObject []\<rparr> \<and>
   NovelContent_objects (db_state (snd (NovelContinueAPI_post env0 (Some author2) continue_rq
       (world_started [server_error])))) = NovelContent_objects db_started \<and>
   fst (NovelContinueAPI_post env0 (Some author2) continue_rq
          (world_started [sequence_answer, server_error])) = Inl RequestAIServerError \<and>
   NovelContent_objects (db_state (snd (NovelContinueAPI_post env0 (Some author2) continue_rq
       (world_started [sequence_answer, server_error])))) = NovelContent_objects db_started"
proof -
  have a: "upstream (world_started [server_error]) = server_error # [] \<and>
           status_code server_error \<noteq> 200 \<and>
           sent (snd (NovelContinueAPI_post env0 (Some author2) continue_rq
                        (world_started [server_error]))) \<noteq> sent (world_started [server_error])"
  proof -
    have "status_code server_error \<noteq> 200" by (simp add: server_error_def)
    moreover have "sent (world_started [server_error]) = []" by (simp add: world_started_def)
    moreover have "upstream (world_started [server_error]) = [server_error]"
      by (simp add: world_started_def)
    ultimately show ?thesis by (simp add: continue_timeout_example)
  qed
  have b: "upstream (world_started [sequence_answer, server_error])
             = sequence_answer # server_error # [] \<and>
           status_code server_error \<noteq> 200 \<and>
           length (sent (snd (NovelContinueAPI_post env0 (Some author2) continue_rq
                        (world_started [sequence_answer, server_error]))))
             = length (sent (world_started [sequence_answer, server_error])) + 2"
  proof -
    have "status_code server_error \<noteq> 200" by (simp add: server_error_def)
    moreover have "sent (world_started [sequence_answer, server_error]) = []"
      by (simp add: world_started_def)
    moreover have "upstream (world_started [sequence_answer, server_error])
                     = [sequence_answer, server_error]"
      by (simp add: world_started_def)
    ultimately show ?thesis by (simp add: continue_question_failure_example)
  qed
  have d1: "db_state (world_started [server_error]) = db_started"
    and d2: "db_state (world_started [sequence_answer, server_error]) = db_started"
    by (simp_all add: world_started_def)
  have "fst (NovelContinueAPI_post env0 (Some author2) continue_rq (world_started [server_error]))
          = Inr \<lparr>resp_status = 408, resp_data = JObject []\<rparr> \<and>
        NovelContent_objects (db_state (snd (NovelContinueAPI_post env0 (Some author2)
          continue_rq (world_started [server_error]))))
          = NovelContent_objects (db_state (world_started [server_error]))"
    using continue_upstream_failure[where env = env0 and user = "Some author2"
            and rq = continue_rq and w = "world_started [server_error]",
            OF prod.collapse[symmetric], THEN conjunct1, rule_format, OF a] .
  moreover
  have "fst (NovelContinueAPI_post env0 (Some author2) continue_rq
               (world_started [sequence_answer, server_error])) = Inl RequestAIServerError \<and>
        NovelContent_objects (db_state (snd (NovelContinueAPI_post env0 (Some author2)
          continue_rq (world_started [sequence_answer, server_error]))))
          = NovelContent_objects (db_state (world_started [sequence_answer, server_error]))"
    using continue_upstream_failure[where env = env0 and user = "Some author2"
            and rq = continue_rq and w = "world_started [sequence_answer, server_error]",
            OF prod.collapse[symmetric], THEN conjunct2, rule_format, OF b] .
  ultimately show ?thesis unfolding d1 d2 by simp
qed

text \<open>
  C4, as the claim states it, fails in its last part: after the continue
  request on step 2 the novel has the steps 1, 2 and 3, step 3 is the one that
  waits for the next request, and the response's \<open>step\<close> field is 2.
\<close>

theorem continue_reports_written_step:
  "fst (NovelContinueAPI_post env0 (Some author2) continue_rq
          (world_started [sequence_answer, question_answer])) = Inr continue_response \<and>
   py_get (resp_data continue_response) ''step'' = Inr (JInt 2) \<and>
   map step (NovelContent_objects (db_state (snd (NovelContinueAPI_post env0 (Some author2)
          continue_rq (world_started [sequence_answer, question_answer]))))) = [1, 2, 3]"
  by (simp add: continue_example continue_response_def py_get_def db_continued_def
      world_after_continue_def)

text \<open>
  C4, amended. A continue request that succeeds at step \<open>k\<close> found the step
  \<open>k\<close> of the novel with the chosen query among its three; it writes the
  returned story and the chosen query on that step, leaves the other steps as
  they were, and adds one step \<open>k + 1\<close> with the three queries of the question
  answer. The response's \<open>step\<close> field is \<open>k\<close>, the step just written.
\<close>

theorem continue_success:
  assumes ok: "NovelContinueAPI_post env user rq w = (Inr resp, w')"
    and st: "resp_status resp = 200"
    and inv: "db_invariant (db_state w)"
  shows "\<exists>nc r1 r2 rest j1 j2 story q1 q2 q3.
     find (\<lambda>c. content_novel c = cr_novel_id rq \<and> step c = cr_step rq)
          (NovelContent_objects (db_state w)) = Some nc \<and>
     JString (cr_query rq) \<in> {query1 nc, query2 nc, query3 nc} \<and>
     upstream w = r1 # r2 # rest \<and>
     json_loads (body r1) = Some j1 \<and> py_get j1 ''korean_answer'' = Inr story \<and>
     json_loads (body r2) = Some j2 \<and>
     py_get j2 ''query1'' = Inr q1 \<and> py_get j2 ''query2'' = Inr q2 \<and>
     py_get j2 ''query3'' = Inr q3 \<and>
     NovelContent_objects (db_state w') =
       map (\<lambda>c. if content_pk c = content_pk nc
                 then nc\<lparr>content := story, chosen_query := JString (cr_query rq)\<rparr> else c)
           (NovelContent_objects (db_state w)) @
       [\<lparr>content_pk = next_content_pk (db_state w), content_novel = cr_novel_id rq,
         step = cr_step rq + 1, content = JNull, chosen_query = JNull,
         query1 = q1, query2 = q2, query3 = q3\<rparr>] \<and>
     py_get (resp_data resp) ''step'' = Inr (JInt (cr_step rq))"
proof -
  from ok st obtain novel nc img q d1 dh0 dh r1 rs1 j1 cap story dh' r2 rs2 j2 where
    ser: "NovelContinueSerializer_save rq (db_state w) = Inr (novel, nc, img, q, d1)"
    and up: "upstream w = r1 # r2 # rs2"
    and j1: "json_loads (body r1) = Some j1" "py_get j1 ''korean_answer'' = Inr story"
    and j2: "json_loads (body r2) = Some j2"
    and p: "NovelContinueAPI_post_persist novel nc img q cap story j2
       \<lparr>db_state = d1, upstream = rs2,
        sent = sent w @ [\<lparr>req_url = sequence_url env,
                          req_files = [(''image'', filename_of (image_file img))],
                          req_data = [(''previous_question'', json_dumps q),
                                      (''dialog_history'', json_dumps dh)]\<rparr>,
                         \<lparr>req_url = question_url env, req_files = [],
                          req_data = [(''dialog_history'', json_dumps dh')]\<rparr>]\<rparr>
     = (Inr resp, w')"
    by (rule continue_success_cases) blast
  note f = continue_serializer_facts[OF ser]
  from f have fn: "find (\<lambda>n. novel_pk n = cr_novel_id rq) (Novel_objects (db_state w)) = Some novel"
    and fc: "find (\<lambda>c. content_novel c = cr_novel_id rq \<and> step c = cr_step rq)
              (NovelContent_objects (db_state w)) = Some nc"
    and q: "q = JString (cr_query rq)"
    and off: "JString (cr_query rq) \<in> {query1 nc, query2 nc, query3 nc}"
    and d1: "NovelContent_objects d1 = NovelContent_objects (db_state w)"
            "next_content_pk d1 = next_content_pk (db_state w)"
    by auto
  have pk: "novel_pk novel = cr_novel_id rq" using fn by (auto simp: find_Some_iff)
  have nc: "nc \<in> set (NovelContent_objects (db_state w))" "step nc = cr_step rq"
    using fc by (auto simp: find_Some_iff in_set_conv_nth)
  have fresh: "\<forall>c \<in> set (NovelContent_objects (db_state w)).
                 content_pk c < next_content_pk (db_state w)"
    using inv by (simp add: db_invariant_def)
  from continue_persist_effect[OF p] fresh nc(1) d1
  obtain q1 q2 q3 where
    "py_get j2 ''query1'' = Inr q1" "py_get j2 ''query2'' = Inr q2"
    "py_get j2 ''query3'' = Inr q3"
    "NovelContent_objects (db_state w') =
       map (\<lambda>c. if content_pk c = content_pk nc
                 then nc\<lparr>content := story, chosen_query := q\<rparr> else c)
           (NovelContent_objects (db_state w)) @
       [\<lparr>content_pk = next_content_pk (db_state w), content_novel = novel_pk novel,
         step = step nc + 1, content = JNull, chosen_query = JNull,
         query1 = q1, query2 = q2, query3 = q3\<rparr>]"
    "py_get (resp_data resp) ''step'' = Inr (JInt (step nc))"
    by (auto simp: py_get_def)
  then show ?thesis
    using fc off up j1 j2 unfolding q pk nc(2) by blast
qed

theorem continue_success_witness:
  "\<exists>nc q1 q2 q3.
     find (\<lambda>c. content_novel c = 2 \<and> step c = 2) (NovelContent_objects db_started) = Some nc \<and>
     NovelContent_objects db_continued =
       map (\<lambda>c. if content_pk c = content_pk nc
                 then nc\<lparr>content := JString ''then'', chosen_query := JString ''q2''\<rparr> else c)
           (NovelContent_objects db_started) @
       [\<lparr>content_pk = 3, content_novel = 2, step = 3, content = JNull, chosen_query = JNull,
         query1 = q1, query2 = q2, query3 = q3\<rparr>] \<and>
     py_get (resp_data continue_response) ''step'' = Inr (JInt 2)"
proof -
  have st: "resp_status continue_response = 200" by (simp add: continue_response_def)
  have inv: "db_invariant (db_state (world_started [sequence_answer, question_answer]))"
    by (simp add: world_started_def db_started_invariant)
  have "json_loads (body sequence_answer) = Some (JObject
      [(''caption'', JString ''a bird''), (''korean_answer'', JString ''then''),
       (''dialog_history'', JArray [JString ''h1'', JString ''h2'', JString ''h3''])])"
    unfolding sequence_answer_def http_response.simps by (rule json_loads_dumps) simp
  then have v: "json_loads (body sequence_answer) = Some j \<Longrightarrow> py_get j ''korean_answer'' = Inr s
           \<Longrightarrow> s = JString ''then''" for j s
    by (auto simp: py_get_def)
  have e: "upstream (world_started [sequence_answer, question_answer])
             = [sequence_answer, question_answer]"
          "db_state (world_started [sequence_answer, question_answer]) = db_started"
          "cr_novel_id continue_rq = 2" "cr_step continue_rq = 2" "cr_query continue_rq = ''q2''"
          "next_content_pk db_started = 3"
    by (simp_all add: world_started_def continue_rq_def db_started_def)
  have a: "db_state world_after_continue = db_continued"
    by (simp add: world_after_continue_def)
  from continue_success[OF continue_example st inv] v show ?thesis
    unfolding e a by (simp, blast)
qed

section \<open>End\<close>

text \<open>
  C6. The claim: when the upstream call of a Start or End request returns a
  non-success status, the handler raises \<open>RequestAIServerError\<close>. The code of
  End at an answer with status 500 whose body is not JSON: the body is parsed
  before the status is looked at, and the handler raises the decoder's error
  instead. Nothing was written: the database is as it was.
\<close>

theorem end_failure_raises_decode_error:
  "status_code server_error \<noteq> 200 \<and>
   NovelEndAPI_post env0 (Some author2) end_rq (world_continued [server_error])
     = (Inl JSONDecodeError,
        \<lparr>db_state = db_continued, upstream = [], sent = [end_http_rq]\<rparr>)"
  by code_simp





text \<open>
  What End does at every answer that is not a success, once its request was
  sent: nothing is written, and the error is the decoder's when the body is not
  JSON, \<open>RequestAIServerError\<close> when it is.
\<close>

lemma end_upstream_failure:
  assumes "NovelEndAPI_post env user rq w = (res, w')" and "sent w' \<noteq> sent w"
    and "upstream w = r # rs" and "status_code r \<noteq> 200"
  shows "db_state w' = db_state w \<and>
         res = (if json_loads (body r) = None then Inl JSONDecodeError
                else Inl RequestAIServerError)"
proof -
  have ps: "NovelEndAPI_post_persist novel nc v rj w0 = (res', w0') \<Longrightarrow> sent w0' = sent w0"
    for novel nc v rj w0 res' w0'
    by (auto simp: NovelEndAPI_post_persist_def Let_def split: option.splits sum.splits)
  show ?thesis
    using assms
    by (auto simp: NovelEndAPI_post_def json_of_response_def Let_def
             split: option.splits sum.splits prod.splits if_splits
             dest!: requests_post_cases ps)
qed

section \<open>Start\<close>

lemma start_success_cases:
  assumes "NovelStartAPI_post env user rq w = (Inr resp, w')" and "resp_status resp = 200"
  obtains u novel nc imgs d1 r1 j1 story dh jb r2 rest j2 where
    "user = Some u"
    "NovelStartSerializer_save env u rq (db_state w) = Inr (novel, nc, imgs, d1)"
    "upstream w = r1 # r2 # rest"
    "status_code r1 = 200" "json_loads (body r1) = Some j1"
    "py_get j1 ''korean_answer'' = Inr story" "py_get j1 ''dialog_history'' = Inr dh"
    "py_get jb ''caption'' = py_get j1 ''caption''"
    "status_code r2 = 200" "json_loads (body r2) = Some j2"
    "NovelStartAPI_post_persist novel nc imgs story jb j2
       \<lparr>db_state = d1, upstream = rest,
        sent = sent w @ [\<lparr>req_url = start_url env,
                          req_files = map (\<lambda>im. (''images'', filename_of (image_file im))) imgs,
                          req_data = [(''genre'', sr_genre rq)]\<rparr>,
                         \<lparr>req_url = question_url env, req_files = [],
                          req_data = [(''dialog_history'', json_dumps dh)]\<rparr>]\<rparr>
     = (Inr resp, w')"
proof -
  from assms(1) obtain u where u: "user = Some u"
    by (auto simp: NovelStartAPI_post_def split: option.splits)
  from assms u have demo: "\<not> (DEMO env = Some ''TRUE'' \<and> nickname u \<noteq> demo_nickname)"
    by (auto simp: NovelStartAPI_post_def HTTP_500_INTERNAL_SERVER_ERROR_def split: if_splits)
  from assms(1) u demo obtain novel nc imgs d1 where
    ser: "NovelStartSerializer_save env u rq (db_state w) = Inr (novel, nc, imgs, d1)"
    by (auto simp: NovelStartAPI_post_def split: sum.splits)
  note unf = NovelStartAPI_post_def u ser Let_def
  from assms(1) demo have dev: "DEV env \<noteq> ''TRUE''"
    by (auto simp: unf split: if_splits)
  let ?rq1 = "\<lparr>req_url = start_url env,
                 req_files = map (\<lambda>im. (''images'', filename_of (image_file im))) imgs,
                 req_data = [(''genre'', sr_genre rq)]\<rparr>"
  let ?w1 = "w\<lparr>db_state := d1\<rparr>"
  obtain res1 w2 where p1: "requests_post ?rq1 ?w1 = (res1, w2)" by (cases "requests_post ?rq1 ?w1")
  from assms(1) demo dev p1 obtain r1 where r1: "res1 = Inr r1"
    by (auto simp: unf split: sum.splits)
  from requests_post_Inr[OF p1[unfolded r1]] obtain rs1 where
    up1: "upstream w = r1 # rs1" and w2: "w2 = ?w1\<lparr>upstream := rs1, sent := sent w @ [?rq1]\<rparr>"
    by auto
  note unf2 = unf dev p1 r1
  from assms(1) demo have s1: "status_code r1 = 200"
    by (auto simp: unf2 split: if_splits)
  from assms(1) demo s1 obtain j1 where j1: "json_loads (body r1) = Some j1"
    by (auto simp: unf2 json_of_response_def split: option.splits sum.splits)
  then have jr1: "json_of_response r1 = Inr j1" by (simp add: json_of_response_def)
  note unf3 = unf2 s1 jr1
  from assms(1) demo obtain story ja where s: "py_pop j1 ''korean_answer'' = Inr (story, ja)"
    by (auto simp: unf3 split: sum.splits)
  from assms(1) demo s obtain dh jb where d: "py_pop ja ''dialog_history'' = Inr (dh, jb)"
    by (auto simp: unf3 split: sum.splits)
  obtain res2 w3 where q: "retrieve_question_from_ai_json env dh w2 = (res2, w3)"
    by (cases "retrieve_question_from_ai_json env dh w2")
  from assms(1) demo s d q obtain j2 where j2: "res2 = Inr j2"
    by (auto simp: unf3 split: sum.splits)
  from retrieve_question_Inr[OF q[unfolded j2]] w2 obtain r2 rs2 where
    up2: "rs1 = r2 # rs2" "status_code r2 = 200" "json_loads (body r2) = Some j2"
    and w3: "w3 = w2\<lparr>upstream := rs2,
               sent := sent w2 @ [\<lparr>req_url = question_url env, req_files = [],
                                   req_data = [(''dialog_history'', json_dumps dh)]\<rparr>]\<rparr>"
    by auto
  have fin: "NovelStartAPI_post_persist novel nc imgs story jb j2 w3 = (Inr resp, w')"
    using assms(1) demo by (simp add: unf3 s d q j2)
  have g1: "py_get j1 ''korean_answer'' = Inr story" using s by (rule py_pop_get)
  have g2: "py_get j1 ''dialog_history'' = Inr dh"
    using py_pop_pop_other[OF s _ d] by simp
  have g3: "py_get jb ''caption'' = py_get j1 ''caption''"
    using py_pop_get_other[OF s, of "''caption''"] py_pop_get_other[OF d, of "''caption''"]
    by simp
  have w3': "w3 = \<lparr>db_state = d1, upstream = rs2,
        sent = sent w @ [?rq1, \<lparr>req_url = question_url env, req_files = [],
                          req_data = [(''dialog_history'', json_dumps dh)]\<rparr>]\<rparr>"
    unfolding w3 w2 by simp
  show ?thesis
    by (rule that[OF u ser _ s1 j1 g1 g2 g3 up2(2,3) fin[unfolded w3']])
       (simp add: up1 up2)
qed

lemma start_success_effect:
  assumes ok: "NovelStartAPI_post env user rq w = (Inr resp, w')"
    and st: "resp_status resp = 200"
    and inv: "db_invariant (db_state w)"
  obtains u g r1 r2 rest j1 j2 caps story q1 q2 q3 imgs where
    "user = Some u" "genre_field env (sr_genre rq) = Some g"
    "upstream w = r1 # r2 # rest"
    "json_loads (body r1) = Some j1" "py_get j1 ''caption'' = Inr caps"
    "py_get j1 ''korean_answer'' = Inr story"
    "json_loads (body r2) = Some j2"
    "py_get j2 ''query1'' = Inr q1" "py_get j2 ''query2'' = Inr q2"
    "py_get j2 ''query3'' = Inr q3"
    "NovelContentImage_objects (db_state w') = NovelContentImage_objects (db_state w) @ imgs"
    "length imgs = length (sr_images rq)" "1 \<le> length imgs"
    "map image_file imgs = sr_images rq"
    "map (\<lambda>i. Inr (caption i)) imgs = map (py_index caps) [0..<length imgs]"
    "NovelContent_objects (db_state w') = NovelContent_objects (db_state w) @
       [\<lparr>content_pk = next_content_pk (db_state w), content_novel = next_novel_pk (db_state w),
         step = 1, content = story, chosen_query = JNull,
         query1 = JNull, query2 = JNull, query3 = JNull\<rparr>,
        \<lparr>content_pk = Suc (next_content_pk (db_state w)),
         content_novel = next_novel_pk (db_state w),
         step = 2, content = JNull, chosen_query = JNull,
         query1 = q1, query2 = q2, query3 = q3\<rparr>]"
    "filter (\<lambda>c. content_novel c = next_novel_pk (db_state w))
            (NovelContent_objects (db_state w)) = []"
    "Novel_objects (db_state w') = Novel_objects (db_state w) @
       [\<lparr>novel_pk = next_novel_pk (db_state w), author = user_pk u, title = [], genre = g,
         status = DRAFT, prompt = json_dumps j2, cover_img = [], original_cover_img = []\<rparr>]"
proof -
  let ?d = "db_state w"
  from ok st obtain u novel nc imgs0 d1 r1 j1 story dh jb r2 rest j2 sent3 where
    u: "user = Some u" and
    ser: "NovelStartSerializer_save env u rq ?d = Inr (novel, nc, imgs0, d1)"
    and up: "upstream w = r1 # r2 # rest"
    and j1: "json_loads (body r1) = Some j1" "py_get j1 ''korean_answer'' = Inr story"
            "py_get jb ''caption'' = py_get j1 ''caption''"
    and j2: "json_loads (body r2) = Some j2"
    and p: "NovelStartAPI_post_persist novel nc imgs0 story jb j2
              \<lparr>db_state = d1, upstream = rest, sent = sent3\<rparr> = (Inr resp, w')"
    by (rule start_success_cases) blast
  from start_serializer_facts[OF ser] obtain g where
    g: "genre_field env (sr_genre rq) = Some g" and
    ne: "sr_images rq \<noteq> []"
    and novel: "novel = \<lparr>novel_pk = next_novel_pk ?d, author = user_pk u, title = [], genre = g,
              status = DRAFT, prompt = [], cover_img = [], original_cover_img = []\<rparr>"
    and nc: "nc = \<lparr>content_pk = next_content_pk ?d, content_novel = next_novel_pk ?d, step = 1,
           content = JNull, chosen_query = JNull, query1 = JNull, query2 = JNull,
           query3 = JNull\<rparr>"
    and imgs0: "imgs0 = start_images (next_image_pk ?d) (next_content_pk ?d) (sr_images rq)"
    and d1: "d1 = ?d\<lparr>Novel_objects := Novel_objects ?d @ [novel],
            NovelStats_objects := NovelStats_objects ?d @
              [\<lparr>stats_novel = next_novel_pk ?d, hit_count = 0, like_count = 0,
                comment_count = 0\<rparr>],
            NovelContent_objects := NovelContent_objects ?d @ [nc],
            NovelContentImage_objects := NovelContentImage_objects ?d @ imgs0,
            next_novel_pk := Suc (next_novel_pk ?d),
            next_content_pk := Suc (next_content_pk ?d),
            next_image_pk := next_image_pk ?d + length imgs0\<rparr>"
    by blast
  note sf = start_images_facts[of "next_image_pk ?d" "next_content_pk ?d" "sr_images rq",
      folded imgs0]
  \<comment> \<open>the statements after the upstream block\<close>
  from p obtain caps jc where c: "py_pop jb ''caption'' = Inr (caps, jc)"
    by (auto simp: NovelStartAPI_post_persist_def split: sum.splits)
  then have cg: "py_get j1 ''caption'' = Inr caps" using py_pop_get[OF c] j1(3) by simp
  from p c obtain imgs where a: "assign_captions imgs0 caps 0 = Inr imgs"
    by (auto simp: NovelStartAPI_post_persist_def split: sum.splits)
  from assign_captions_Inr[OF a] obtain cs where
    cs: "length cs = length imgs0" "imgs = map2 (\<lambda>img c. img\<lparr>caption := c\<rparr>) imgs0 cs"
        "\<forall>k < length imgs0. py_index caps k = Inr (cs ! k)"
    by auto
  let ?nc' = "nc\<lparr>content := story\<rparr>"
  let ?blank = "\<lparr>content_pk = Suc (next_content_pk ?d), content_novel = next_novel_pk ?d,
                  step = 2, content = JNull, chosen_query = JNull,
                  query1 = JNull, query2 = JNull, query3 = JNull\<rparr>"
  define dA where "dA = bulk_update_caption imgs d1"
  define dB where "dB = NovelContent_save ?nc' dA"
  define dC where "dC = snd (get_next_novel_content ?nc' novel dB)"
  have nxt: "get_next_novel_content ?nc' novel dB = (?blank, dC)"
    by (simp add: dC_def get_next_novel_content_def NovelContent_create_def Let_def
        dB_def dA_def NovelContent_save_def bulk_update_caption_def d1 nc novel)
  from p obtain nx where wq: "novel_content_with_query j2 ?blank = Inr nx"
    by (auto simp: NovelStartAPI_post_persist_def c a Let_def nxt[unfolded dB_def dA_def]
             split: sum.splits)
  from with_query_Inr[OF wq] obtain q1 q2 q3 where
    qs: "py_get j2 ''query1'' = Inr q1" "py_get j2 ''query2'' = Inr q2"
        "py_get j2 ''query3'' = Inr q3"
    and nx: "nx = ?blank\<lparr>query1 := q1, query2 := q2, query3 := q3\<rparr>" by blast
  let ?novel' = "novel\<lparr>prompt := json_dumps j2\<rparr>"
  from p have w': "db_state w' = Novel_save ?novel' (NovelContent_save nx dC)"
    by (auto simp: NovelStartAPI_post_persist_def c a Let_def nxt[unfolded dB_def dA_def] wq)
  \<comment> \<open>the tables, one write after the other\<close>
  have oldI: "\<forall>r \<in> set (NovelContentImage_objects ?d). image_pk r \<notin> image_pk ` set imgs0"
    using inv sf(4) by (fastforce simp: db_invariant_def)
  have disI: "distinct (map image_pk imgs0)"
    unfolding sf(2) by (simp add: distinct_map inj_on_def)
  have I: "map (\<lambda>r. case find (\<lambda>obj. image_pk obj = image_pk r) imgs of
                       None \<Rightarrow> r | Some obj \<Rightarrow> r\<lparr>caption := caption obj\<rparr>)
               (NovelContentImage_objects ?d @ imgs0)
           = NovelContentImage_objects ?d @ imgs"
    unfolding cs(2) by (rule bulk_update_new_rows[OF cs(1) disI oldI])
  have oldC: "\<forall>r \<in> set (NovelContent_objects ?d). content_pk r \<noteq> content_pk ?nc'"
    using inv by (auto simp: db_invariant_def nc)
  have C1: "save_row content_pk ?nc' (NovelContent_objects ?d @ [nc])
            = NovelContent_objects ?d @ [?nc']"
    by (rule save_row_last[OF oldC]) simp
  have oldC2: "\<forall>r \<in> set (NovelContent_objects ?d @ [?nc']). content_pk r \<noteq> content_pk nx"
    using inv by (auto simp: db_invariant_def nc nx)
  have C2: "save_row content_pk nx ((NovelContent_objects ?d @ [?nc']) @ [?blank])
            = (NovelContent_objects ?d @ [?nc']) @ [nx]"
    by (rule save_row_last[OF oldC2]) (simp add: nx)
  have oldN: "\<forall>r \<in> set (Novel_objects ?d). novel_pk r \<noteq> novel_pk ?novel'"
    using inv by (auto simp: db_invariant_def novel)
  have N: "save_row novel_pk ?novel' (Novel_objects ?d @ [novel]) = Novel_objects ?d @ [?novel']"
    by (rule save_row_last[OF oldN]) simp
  have tA: "NovelContentImage_objects dA = NovelContentImage_objects ?d @ imgs"
           "NovelContent_objects dA = NovelContent_objects ?d @ [nc]"
           "Novel_objects dA = Novel_objects ?d @ [novel]"
    using I by (simp_all add: dA_def bulk_update_caption_def d1)
  have tB: "NovelContentImage_objects dB = NovelContentImage_objects ?d @ imgs"
           "NovelContent_objects dB = NovelContent_objects ?d @ [?nc']"
           "Novel_objects dB = Novel_objects ?d @ [novel]"
    using tA C1 by (simp_all add: dB_def NovelContent_save_def)
  have tC: "NovelContentImage_objects dC = NovelContentImage_objects ?d @ imgs"
           "NovelContent_objects dC = (NovelContent_objects ?d @ [?nc']) @ [?blank]"
           "Novel_objects dC = Novel_objects ?d @ [novel]"
    using tB nxt
    by (auto simp: get_next_novel_content_def NovelContent_create_def Let_def)
  have tE: "NovelContentImage_objects (db_state w') = NovelContentImage_objects ?d @ imgs"
           "NovelContent_objects (db_state w') = (NovelContent_objects ?d @ [?nc']) @ [nx]"
           "Novel_objects (db_state w') = Novel_objects ?d @ [?novel']"
    using tC C2 N by (simp_all add: w' Novel_save_def NovelContent_save_def)
  have noC: "filter (\<lambda>c. content_novel c = next_novel_pk ?d) (NovelContent_objects ?d) = []"
    using inv by (auto simp: db_invariant_def filter_empty_conv)
  have caps_eq: "map (\<lambda>i. Inr (caption i)) imgs = map (py_index caps) [0..<length imgs]"
  proof (rule nth_equalityI)
    show "length (map (\<lambda>i. Inr (caption i)) imgs) = length (map (py_index caps) [0..<length imgs])"
      by simp
  next
    fix k assume "k < length (map (\<lambda>i. Inr (caption i)) imgs)"
    then have k: "k < length imgs0" using cs(1,2) by simp
    then have "caption (imgs ! k) = cs ! k" using cs(1,2) by simp
    then show "map (\<lambda>i. Inr (caption i)) imgs ! k = map (py_index caps) [0..<length imgs] ! k"
      using k cs by simp
  qed
  have files: "map image_file imgs = sr_images rq"
  proof -
    have "map image_file imgs = map image_file imgs0"
      unfolding cs(2) using cs(1)[symmetric] by (induction imgs0 cs rule: list_induct2) auto
    then show ?thesis using sf(3) by simp
  qed
  have len: "length imgs = length (sr_images rq)" "1 \<le> length imgs"
    using cs(1,2) sf(1) ne by (simp_all add: Suc_leI)
  have C: "NovelContent_objects (db_state w') = NovelContent_objects ?d @
       [\<lparr>content_pk = next_content_pk ?d, content_novel = next_novel_pk ?d,
         step = 1, content = story, chosen_query = JNull,
         query1 = JNull, query2 = JNull, query3 = JNull\<rparr>,
        \<lparr>content_pk = Suc (next_content_pk ?d), content_novel = next_novel_pk ?d,
         step = 2, content = JNull, chosen_query = JNull,
         query1 = q1, query2 = q2, query3 = q3\<rparr>]"
    by (simp add: tE nc nx)
  have N': "Novel_objects (db_state w') = Novel_objects ?d @
       [\<lparr>novel_pk = next_novel_pk ?d, author = user_pk u, title = [], genre = g,
         status = DRAFT, prompt = json_dumps j2, cover_img = [], original_cover_img = []\<rparr>]"
    by (simp add: tE novel)
  show ?thesis
    by (rule that[OF u g up j1(1) cg j1(2) j2 qs tE(1) len files caps_eq C noC N'])
qed

text \<open>
  C5. A Start request that succeeds, on a database whose keys are as
  auto-increment gives them: the AI server's two answers parsed; the request's
  \<open>N\<close> images (\<open>N \<ge> 1\<close>) are the new image rows, in the order submitted, and
  the \<open>i\<close>-th of them carries \<open>caption[i]\<close> of the start answer; the step
  table gained exactly two rows, both of the new novel: step 1 with the story as
  its content, and step 2 with the three queries of the question answer.
\<close>

theorem start_success:
  assumes "NovelStartAPI_post env user rq w = (Inr resp, w')"
    and "resp_status resp = 200"
    and "db_invariant (db_state w)"
  shows "\<exists>r1 r2 rest j1 j2 caps story q1 q2 q3 imgs.
     upstream w = r1 # r2 # rest \<and>
     json_loads (body r1) = Some j1 \<and> py_get j1 ''caption'' = Inr caps \<and>
     py_get j1 ''korean_answer'' = Inr story \<and>
     json_loads (body r2) = Some j2 \<and>
     py_get j2 ''query1'' = Inr q1 \<and> py_get j2 ''query2'' = Inr q2 \<and>
     py_get j2 ''query3'' = Inr q3 \<and>
     NovelContentImage_objects (db_state w') = NovelContentImage_objects (db_state w) @ imgs \<and>
     length imgs = length (sr_images rq) \<and> 1 \<le> length imgs \<and>
     map image_file imgs = sr_images rq \<and>
     map (\<lambda>i. Inr (caption i)) imgs = map (py_index caps) [0..<length imgs] \<and>
     NovelContent_objects (db_state w') = NovelContent_objects (db_state w) @
       [\<lparr>content_pk = next_content_pk (db_state w), content_novel = next_novel_pk (db_state w),
         step = 1, content = story, chosen_query = JNull,
         query1 = JNull, query2 = JNull, query3 = JNull\<rparr>,
        \<lparr>content_pk = Suc (next_content_pk (db_state w)),
         content_novel = next_novel_pk (db_state w),
         step = 2, content = JNull, chosen_query = JNull,
         query1 = q1, query2 = q2, query3 = q3\<rparr>] \<and>
     length (filter (\<lambda>c. content_novel c = next_novel_pk (db_state w))
                    (NovelContent_objects (db_state w'))) = 2"
proof -
  from assms obtain u g r1 r2 rest j1 j2 caps story q1 q2 q3 imgs where
    f: "upstream w = r1 # r2 # rest"
    "json_loads (body r1) = Some j1" "py_get j1 ''caption'' = Inr caps"
    "py_get j1 ''korean_answer'' = Inr story"
    "json_loads (body r2) = Some j2"
    "py_get j2 ''query1'' = Inr q1" "py_get j2 ''query2'' = Inr q2"
    "py_get j2 ''query3'' = Inr q3"
    "NovelContentImage_objects (db_state w') = NovelContentImage_objects (db_state w) @ imgs"
    "length imgs = length (sr_images rq)" "1 \<le> length imgs"
    "map image_file imgs = sr_images rq"
    "map (\<lambda>i. Inr (caption i)) imgs = map (py_index caps) [0..<length imgs]"
    and C: "NovelContent_objects (db_state w') = NovelContent_objects (db_state w) @
       [\<lparr>content_pk = next_content_pk (db_state w), content_novel = next_novel_pk (db_state w),
         step = 1, content = story, chosen_query = JNull,
         query1 = JNull, query2 = JNull, query3 = JNull\<rparr>,
        \<lparr>content_pk = Suc (next_content_pk (db_state w)),
         content_novel = next_novel_pk (db_state w),
         step = 2, content = JNull, chosen_query = JNull,
         query1 = q1, query2 = q2, query3 = q3\<rparr>]"
    and noC: "filter (\<lambda>c. content_novel c = next_novel_pk (db_state w))
            (NovelContent_objects (db_state w)) = []"
    by (rule start_success_effect)
  have two: "length (filter (\<lambda>c. content_novel c = next_novel_pk (db_state w))
                    (NovelContent_objects (db_state w'))) = 2"
    unfolding C using noC by simp
  show ?thesis
    apply (rule exI[of _ r1], rule exI[of _ r2], rule exI[of _ rest], rule exI[of _ j1],
           rule exI[of _ j2], rule exI[of _ caps], rule exI[of _ story],
           rule exI[of _ q1], rule exI[of _ q2], rule exI[of _ q3], rule exI[of _ imgs])
    using f C two by simp
qed

theorem start_success_witness:
  "\<exists>r1 r2 rest j1 j2 caps story q1 q2 q3 imgs.
     upstream (world0 [start_answer, question_answer]) = r1 # r2 # rest \<and>
     json_loads (body r1) = Some j1 \<and> py_get j1 ''caption'' = Inr caps \<and>
     py_get j1 ''korean_answer'' = Inr story \<and>
     json_loads (body r2) = Some j2 \<and>
     py_get j2 ''query1'' = Inr q1 \<and> py_get j2 ''query2'' = Inr q2 \<and>
     py_get j2 ''query3'' = Inr q3 \<and>
     NovelContentImage_objects (db_state world_after_start) = NovelContentImage_objects (db_state (world0 [start_answer, question_answer])) @ imgs \<and>
     length imgs = length (sr_images start_rq) \<and> 1 \<le> length imgs \<and>
     map image_file imgs = sr_images start_rq \<and>
     map (\<lambda>i. Inr (caption i)) imgs = map (py_index caps) [0..<length imgs] \<and>
     NovelContent_objects (db_state world_after_start) = NovelContent_objects (db_state (world0 [start_answer, question_answer])) @
       [\<lparr>content_pk = next_content_pk (db_state (world0 [start_answer, question_answer])), content_novel = next_novel_pk (db_state (world0 [start_answer, question_answer])),
         step = 1, content = story, chosen_query = JNull,
         query1 = JNull, query2 = JNull, query3 = JNull\<rparr>,
        \<lparr>content_pk = Suc (next_content_pk (db_state (world0 [start_answer, question_answer]))),
         content_novel = next_novel_pk (db_state (world0 [start_answer, question_answer])),
         step = 2, content = JNull, chosen_query = JNull,
         query1 = q1, query2 = q2, query3 = q3\<rparr>] \<and>
     length (filter (\<lambda>c. content_novel c = next_novel_pk (db_state (world0 [start_answer, question_answer])))
                    (NovelContent_objects (db_state world_after_start))) = 2"
proof -
  have st: "resp_status start_response = 200" by (simp add: start_response_def)
  have inv: "db_invariant (db_state (world0 [start_answer, question_answer]))"
    by (simp add: world0_def db0_invariant)
  show ?thesis by (rule start_success[OF start_example st inv])
qed

text \<open>
  What Start does when one of its two requests to the AI server is answered
  with a status that is not a success: it raises \<open>RequestAIServerError\<close>, and
  the database is the one the serializer left, with the novel, its first step
  and the images written and no caption assigned.
\<close>

lemma start_persist_sent:
  "NovelStartAPI_post_persist novel nc imgs story rj j2 w0 = (res', w0') \<Longrightarrow> sent w0' = sent w0"
  by (auto simp: NovelStartAPI_post_persist_def Let_def split_beta split: sum.splits)

lemma start_upstream_failure:
  assumes "NovelStartAPI_post env (Some u) rq w = (res, w')"
    and "NovelStartSerializer_save env u rq (db_state w) = Inr (novel, nc, images, d1)"
  shows "(\<forall>r rs. upstream w = r # rs \<and> status_code r \<noteq> 200 \<and> sent w' \<noteq> sent w \<longrightarrow>
            res = Inl RequestAIServerError \<and> db_state w' = d1) \<and>
         (\<forall>r1 r2 rs. upstream w = r1 # r2 # rs \<and> status_code r2 \<noteq> 200 \<and>
                      length (sent w') = length (sent w) + 2 \<longrightarrow>
            res = Inl RequestAIServerError \<and> db_state w' = d1)"
  using assms
  unfolding NovelStartAPI_post_def
  by (auto simp: Let_def
           split: option.splits sum.splits prod.splits if_splits
           dest!: requests_post_cases retrieve_question_cases start_persist_sent)

section \<open>What the prompt column holds\<close>




section \<open>The status of a novel\<close>

lemma novel_finished_frame:
  "Novel_objects d' = Novel_objects d \<Longrightarrow> next_novel_pk d' = next_novel_pk d \<Longrightarrow>
   novel_finished n d' = novel_finished n d"
  by (simp add: novel_finished_def)

lemma novel_finished_save:
  assumes "novel_finished n d" and "novel_pk obj < next_novel_pk d"
    and "novel_pk obj = n \<longrightarrow> status obj = FINISHED"
  shows "novel_finished n (Novel_save obj d)"
  using assms by (auto simp: novel_finished_def Novel_save_def save_row_def)

lemma novel_finished_mem:
  "novel_finished n d \<Longrightarrow> find (\<lambda>r. novel_pk r = k) (Novel_objects d) = Some novel \<Longrightarrow>
   novel_pk novel < next_novel_pk d \<and> (novel_pk novel = n \<longrightarrow> status novel = FINISHED)"
  using find_mem[of "\<lambda>r. novel_pk r = k" "Novel_objects d" novel]
  by (auto simp: novel_finished_def)

lemma frame_simps [simp]:
  "Novel_objects (NovelContent_save c d) = Novel_objects d"
  "next_novel_pk (NovelContent_save c d) = next_novel_pk d"
  "Novel_objects (NovelContentImage_save i d) = Novel_objects d"
  "next_novel_pk (NovelContentImage_save i d) = next_novel_pk d"
  "Novel_objects (bulk_update_caption is d) = Novel_objects d"
  "next_novel_pk (bulk_update_caption is d) = next_novel_pk d"
  "Novel_objects (NovelStats_save_F sf gf k st d) = Novel_objects d"
  "next_novel_pk (NovelStats_save_F sf gf k st d) = next_novel_pk d"
  "Novel_objects (snd (get_next_novel_content c nv d)) = Novel_objects d"
  "next_novel_pk (snd (get_next_novel_content c nv d)) = next_novel_pk d"
  "next_novel_pk (Novel_save nv d) = next_novel_pk d"
  by (simp_all add: NovelContent_save_def NovelContentImage_save_def bulk_update_caption_def
      NovelStats_save_F_def get_next_novel_content_def NovelContent_create_def Novel_save_def
      Let_def)

lemma requests_post_db: "db_state (snd (requests_post rq w)) = db_state w"
  by (simp add: requests_post_def split: list.splits)

lemma retrieve_question_db:
  "db_state (snd (retrieve_question_from_ai_json env dh w)) = db_state w"
  by (simp add: retrieve_question_from_ai_json_def requests_post_def Let_def
      split: list.splits)

lemma start_persist_keeps:
  assumes "novel_finished n (db_state w)" and "novel_pk novel < next_novel_pk (db_state w)"
    and "novel_pk novel = n \<longrightarrow> status novel = FINISHED"
  shows "novel_finished n (db_state (snd (NovelStartAPI_post_persist novel nc imgs story rj j2 w)))"
proof -
  have a: "novel_finished n (bulk_update_caption is (db_state w))" for "is"
    using assms(1) novel_finished_frame[of "bulk_update_caption is (db_state w)" "db_state w" n]
    by simp
  have b: "novel_finished n d \<Longrightarrow> novel_finished n (NovelContent_save c d)" for c d
    using novel_finished_frame[of "NovelContent_save c d" d n] by simp
  have c: "novel_finished n d \<Longrightarrow> novel_finished n (snd (get_next_novel_content c nv d))" for c nv d
    using novel_finished_frame[of "snd (get_next_novel_content c nv d)" d n] by simp
  show ?thesis
    using assms
    by (auto simp: NovelStartAPI_post_persist_def Let_def split_beta
             split: sum.splits intro!: novel_finished_save a b c)
qed

lemma continue_persist_keeps:
  assumes "novel_finished n (db_state w)" and "novel_pk novel < next_novel_pk (db_state w)"
    and "novel_pk novel = n \<longrightarrow> status novel = FINISHED"
  shows "novel_finished n
           (db_state (snd (NovelContinueAPI_post_persist novel nc img q cap story j2 w)))"
proof -
  have a: "novel_finished n (NovelContentImage_save i (db_state w))" for i
    using assms(1)
      novel_finished_frame[of "NovelContentImage_save i (db_state w)" "db_state w" n]
    by simp
  have b: "novel_finished n d \<Longrightarrow> novel_finished n (NovelContent_save c d)" for c d
    using novel_finished_frame[of "NovelContent_save c d" d n] by simp
  have c: "novel_finished n d \<Longrightarrow> novel_finished n (snd (get_next_novel_content c nv d))" for c nv d
    using novel_finished_frame[of "snd (get_next_novel_content c nv d)" d n] by simp
  show ?thesis
    using assms
    by (auto simp: NovelContinueAPI_post_persist_def Let_def split_beta
             split: sum.splits intro!: novel_finished_save a b c)
qed

lemma end_persist_keeps:
  assumes "novel_finished n (db_state w)" and "novel_pk novel < next_novel_pk (db_state w)"
    and "novel_pk novel = n \<longrightarrow> status novel = FINISHED"
  shows "novel_finished n (db_state (snd (NovelEndAPI_post_persist novel nc v rj w)))"
proof -
  have b: "novel_finished n d \<Longrightarrow> novel_finished n (NovelContent_save c d)" for c d
    using novel_finished_frame[of "NovelContent_save c d" d n] by simp
  show ?thesis
    using assms
    by (auto simp: NovelEndAPI_post_persist_def Let_def
             split: sum.splits option.splits intro!: novel_finished_save b)
qed

lemma start_keeps:
  assumes "novel_finished n (db_state w)"
  shows "novel_finished n (db_state (snd (NovelStartAPI_post env user rq w)))"
proof (cases "\<exists>u novel nc imgs d1. user = Some u \<and>
           \<not> (DEMO env = Some ''TRUE'' \<and> nickname u \<noteq> demo_nickname) \<and>
           NovelStartSerializer_save env u rq (db_state w) = Inr (novel, nc, imgs, d1)")
  case False
  then show ?thesis
    using assms by (auto simp: NovelStartAPI_post_def split: option.splits sum.splits)
next
  case True
  then obtain u novel nc imgs d1 where u: "user = Some u"
    and demo: "\<not> (DEMO env = Some ''TRUE'' \<and> nickname u \<noteq> demo_nickname)"
    and ser: "NovelStartSerializer_save env u rq (db_state w) = Inr (novel, nc, imgs, d1)"
    by blast
  from start_serializer_facts[OF ser] have
    pk: "novel_pk novel = next_novel_pk (db_state w)"
    and N: "Novel_objects d1 = Novel_objects (db_state w) @ [novel]"
    and nx: "next_novel_pk d1 = Suc (next_novel_pk (db_state w))"
    by auto
  have f1: "novel_finished n d1"
    using assms by (auto simp: novel_finished_def N nx pk)
  have k1: "novel_pk novel < next_novel_pk d1" "novel_pk novel = n \<longrightarrow> status novel = FINISHED"
    using assms by (auto simp: novel_finished_def nx pk)
  have p: "novel_finished n (db_state (snd (NovelStartAPI_post_persist novel nc imgs story rj j2 w0)))"
    if "db_state w0 = d1" for story rj j2 w0
    using start_persist_keeps[of n w0 novel] f1 k1 that by simp
  show ?thesis
    using f1
    by (auto simp: NovelStartAPI_post_def u demo ser Let_def
             split: sum.splits prod.splits if_splits
             dest!: requests_post_cases retrieve_question_cases
             intro!: p)
qed

lemma continue_keeps:
  assumes "novel_finished n (db_state w)"
  shows "novel_finished n (db_state (snd (NovelContinueAPI_post env user rq w)))"
proof (cases "\<exists>u novel nc img q d1. user = Some u \<and>
           NovelContinueSerializer_save rq (db_state w) = Inr (novel, nc, img, q, d1)")
  case False
  then show ?thesis
    using assms by (auto simp: NovelContinueAPI_post_def split: option.splits sum.splits)
next
  case True
  then obtain u novel nc img q d1 where u: "user = Some u"
    and ser: "NovelContinueSerializer_save rq (db_state w) = Inr (novel, nc, img, q, d1)"
    by blast
  note f = continue_serializer_facts[OF ser]
  from f have fn: "find (\<lambda>n. novel_pk n = cr_novel_id rq) (Novel_objects (db_state w)) = Some novel"
    and N: "Novel_objects d1 = Novel_objects (db_state w)"
    and nx: "next_novel_pk d1 = next_novel_pk (db_state w)"
    by auto
  have f1: "novel_finished n d1"
    using assms novel_finished_frame[OF N nx] by simp
  have k1: "novel_pk novel < next_novel_pk d1" "novel_pk novel = n \<longrightarrow> status novel = FINISHED"
    using novel_finished_mem[OF assms fn] nx by auto
  have p: "novel_finished n
             (db_state (snd (NovelContinueAPI_post_persist novel nc img q cap story j2 w0)))"
    if "db_state w0 = d1" for cap story j2 w0
    using continue_persist_keeps[of n w0 novel] f1 k1 that by simp
  show ?thesis
    using f1
    by (auto simp: NovelContinueAPI_post_def u ser Let_def
             split: sum.splits prod.splits if_splits option.splits
             dest!: requests_post_cases retrieve_question_cases
             intro!: p)
qed

lemma end_keeps:
  assumes "novel_finished n (db_state w)"
  shows "novel_finished n (db_state (snd (NovelEndAPI_post env user rq w)))"
proof (cases "\<exists>u novel. user = Some u \<and>
           find (\<lambda>n. novel_pk n = er_novel_id rq) (Novel_objects (db_state w)) = Some novel")
  case False
  then show ?thesis
    using assms
    by (auto simp: NovelEndAPI_post_def NovelEndSerializer_validate_def
             split: option.splits sum.splits)
next
  case True
  then obtain u novel where u: "user = Some u"
    and fn: "find (\<lambda>n. novel_pk n = er_novel_id rq) (Novel_objects (db_state w)) = Some novel"
    by blast
  have ser: "NovelEndSerializer_validate rq (db_state w) = Inr novel"
    using fn by (simp add: NovelEndSerializer_validate_def)
  have k1: "novel_pk novel < next_novel_pk (db_state w)"
           "novel_pk novel = n \<longrightarrow> status novel = FINISHED"
    using novel_finished_mem[OF assms fn] by auto
  have p: "novel_finished n (db_state (snd (NovelEndAPI_post_persist novel nc v rj w0)))"
    if "db_state w0 = db_state w" for nc v rj w0
    using end_persist_keeps[of n w0 novel] assms k1 that by simp
  show ?thesis
    using assms
    by (auto simp: NovelEndAPI_post_def u ser Let_def
             split: sum.splits prod.splits if_splits option.splits
             dest!: requests_post_cases
             intro!: p)
qed

lemma cover_keeps:
  assumes "novel_finished n (db_state w)"
  shows "novel_finished n (db_state (snd (NovelCoverImageAPI_post env user k img w)))"
proof -
  have s: "novel_finished n (Novel_save (novel\<lparr>cover_img := a, original_cover_img := b\<rparr>) d)"
    if "novel_finished n d" "find (\<lambda>r. novel_pk r = k) (Novel_objects d) = Some novel"
    for novel a b d
    using novel_finished_mem[OF that] that(1) by (intro novel_finished_save) auto
  show ?thesis
    using assms
    by (auto simp: NovelCoverImageAPI_post_def Let_def
             split: sum.splits prod.splits if_splits option.splits
             dest!: requests_post_cases intro!: s)
qed

lemma complete_keeps:
  assumes "novel_finished n d"
  shows "novel_finished n (snd (NovelCompleteAPI_post user k d))"
proof -
  have s: "novel_finished n (Novel_save (novel\<lparr>status := FINISHED\<rparr>) d)"
    if "find (\<lambda>r. novel_pk r = k) (Novel_objects d) = Some novel" for novel
    using novel_finished_mem[OF assms that] assms by (intro novel_finished_save) auto
  show ?thesis
    using assms
    by (auto simp: NovelCompleteAPI_post_def Let_def split: option.splits intro!: s)
qed

lemma db_only_keeps:
  assumes "novel_finished n d"
  shows "novel_finished n (snd (NovelDetailAPI_retrieve user k d))"
    and "novel_finished n (snd (NovelDetailAPI_destroy user k d))"
    and "novel_finished n (snd (NovelCommentAPI_create user k txt d))"
    and "novel_finished n (snd (NovelCommentDeleteAPI_destroy user k d))"
    and "novel_finished n (snd (NovelLikeAPI_create k u d))"
proof -
  show "novel_finished n (snd (NovelDetailAPI_retrieve user k d))"
    using assms
    by (auto simp: NovelDetailAPI_retrieve_def novel_hit_def Let_def novel_finished_def
             split: sum.splits option.splits)
  show "novel_finished n (snd (NovelDetailAPI_destroy user k d))"
    using assms
    by (auto simp: NovelDetailAPI_destroy_def Let_def novel_finished_def
             split: sum.splits option.splits)
  show "novel_finished n (snd (NovelCommentAPI_create user k txt d))"
    using assms
    by (auto simp: NovelCommentAPI_create_def Let_def novel_finished_def
             split: sum.splits option.splits)
  show "novel_finished n (snd (NovelCommentDeleteAPI_destroy user k d))"
    using assms
    by (auto simp: NovelCommentDeleteAPI_destroy_def Let_def novel_finished_def
             split: sum.splits option.splits)
  show "novel_finished n (snd (NovelLikeAPI_create k u d))"
    using assms
    by (auto simp: NovelLikeAPI_create_def NovelLikeAPI_perform_create_def Let_def
             novel_finished_def split: sum.splits option.splits prod.splits)
qed

lemma on_db_state: "db_state (snd (on_db f w)) = snd (f (db_state w))"
  by (simp add: on_db_def split: prod.splits)

lemma handle_keeps:
  assumes "novel_finished n (db_state w)"
  shows "novel_finished n (db_state (snd (handle env user rq w)))"
proof (cases rq)
  case (Like k)
  then show ?thesis
    using assms db_only_keeps(5)[OF assms] by (cases user) (simp_all add: on_db_state)
qed (use assms db_only_keeps[OF assms] complete_keeps[OF assms] start_keeps[OF assms]
       continue_keeps[OF assms] end_keeps[OF assms] cover_keeps[OF assms]
     in \<open>simp_all add: on_db_state\<close>)

lemma run_keeps:
  "novel_finished n (db_state w) \<Longrightarrow> novel_finished n (db_state (run env rqs w))"
proof (induction rqs arbitrary: w)
  case Nil
  then show ?case by simp
next
  case (Cons a rqs)
  obtain user rq where a: "a = (user, rq)" by (cases a)
  show ?case
    unfolding a using Cons.IH[OF handle_keeps[OF Cons.prems]] by simp
qed

text \<open>
  C7. The status of a novel only moves from DRAFT to FINISHED. A novel that is
  FINISHED stays FINISHED through every sequence of requests, whoever sends
  them and whatever the AI server answers. Complete, sent by the author, answers
  200 with the novel and leaves it FINISHED whatever its status was; sent by
  another user it is denied and changes nothing.
\<close>

theorem status_one_way:
  "(novel_finished n (db_state w) \<longrightarrow> novel_finished n (db_state (run env rqs w))) \<and>
   (find (\<lambda>r. novel_pk r = k) (Novel_objects d) = Some novel \<and> author novel = user_pk u \<longrightarrow>
      fst (NovelCompleteAPI_post (Some u) k d)
        = Inr \<lparr>resp_status = 200, resp_data = Novel_data (novel\<lparr>status := FINISHED\<rparr>)\<rparr> \<and>
      find (\<lambda>r. novel_pk r = k) (Novel_objects (snd (NovelCompleteAPI_post (Some u) k d)))
        = Some (novel\<lparr>status := FINISHED\<rparr>)) \<and>
   (find (\<lambda>r. novel_pk r = k) (Novel_objects d) = Some novel \<and> author novel \<noteq> user_pk u \<longrightarrow>
      NovelCompleteAPI_post (Some u) k d = (Inl PermissionDenied, d))"
proof -
  have p1: "novel_finished n (db_state w) \<Longrightarrow> novel_finished n (db_state (run env rqs w))"
    by (rule run_keeps)
  have p2: "fst (NovelCompleteAPI_post (Some u) k d)
        = Inr \<lparr>resp_status = 200, resp_data = Novel_data (novel\<lparr>status := FINISHED\<rparr>)\<rparr> \<and>
      find (\<lambda>r. novel_pk r = k) (Novel_objects (snd (NovelCompleteAPI_post (Some u) k d)))
        = Some (novel\<lparr>status := FINISHED\<rparr>)"
    if fn: "find (\<lambda>r. novel_pk r = k) (Novel_objects d) = Some novel"
      and au: "author novel = user_pk u"
  proof -
    have pk: "novel_pk novel = k" and nm: "novel \<in> set (Novel_objects d)"
      using find_mem[OF fn] by simp_all
    let ?novel' = "novel\<lparr>status := FINISHED\<rparr>"
    have c: "NovelCompleteAPI_post (Some u) k d
             = (Inr \<lparr>resp_status = 200, resp_data = Novel_data ?novel'\<rparr>, Novel_save ?novel' d)"
      using fn au
      by (simp add: NovelCompleteAPI_post_def IsOwnerOrReadOnly_def HTTP_200_OK_def Let_def)
    have "Novel_objects (Novel_save ?novel' d)
          = map (\<lambda>r. if novel_pk r = k then ?novel' else r) (Novel_objects d)"
      unfolding Novel_save_def using nm pk by (simp, subst save_row_present) auto
    then have "find (\<lambda>r. novel_pk r = k) (Novel_objects (Novel_save ?novel' d)) = Some ?novel'"
      using find_map_replace[OF fn, of ?novel'] pk by simp
    then show ?thesis unfolding c by simp
  qed
  have p3: "NovelCompleteAPI_post (Some u) k d = (Inl PermissionDenied, d)"
    if "find (\<lambda>r. novel_pk r = k) (Novel_objects d) = Some novel"
      and "author novel \<noteq> user_pk u"
    using that by (simp add: NovelCompleteAPI_post_def IsOwnerOrReadOnly_def)
  show ?thesis using p1 p2 p3 by blast
qed

theorem status_one_way_witness:
  "novel_finished 1 (db_state (run env0 run_rqs (world0 run_answers))) \<and>
   fst (NovelCompleteAPI_post (Some author2) 2 db_started)
     = Inr \<lparr>resp_status = 200,
            resp_data = Novel_data ((Novel_objects db_started ! 1)\<lparr>status := FINISHED\<rparr>)\<rparr> \<and>
   find (\<lambda>r. novel_pk r = 2)
        (Novel_objects (snd (NovelCompleteAPI_post (Some author2) 2 db_started)))
     = Some ((Novel_objects db_started ! 1)\<lparr>status := FINISHED\<rparr>) \<and>
   NovelCompleteAPI_post (Some user7) 2 db_started = (Inl PermissionDenied, db_started)"
proof -
  have h1: "novel_finished 1 (db_state (world0 run_answers))"
    by (simp add: novel_finished_def world0_def db0_def)
  have f: "find (\<lambda>r. novel_pk r = 2) (Novel_objects db_started) = Some (Novel_objects db_started ! 1)"
    by (simp add: db_started_def)
  have a2: "author (Novel_objects db_started ! 1) = user_pk author2"
    by (simp add: db_started_def author2_def)
  have a7: "author (Novel_objects db_started ! 1) \<noteq> user_pk user7"
    by (simp add: db_started_def user7_def)
  note t1 = status_one_way[where n = 1 and w = "world0 run_answers" and env = env0
      and rqs = run_rqs, THEN conjunct1, rule_format, OF h1]
  note t2 = status_one_way[where k = 2 and d = db_started and u = author2
      and novel = "Novel_objects db_started ! 1",
      THEN conjunct2, THEN conjunct1, rule_format, OF conjI[OF f a2]]
  note t3 = status_one_way[where k = 2 and d = db_started and u = user7
      and novel = "Novel_objects db_started ! 1",
      THEN conjunct2, THEN conjunct2, rule_format, OF conjI[OF f a7]]
  show ?thesis using t1 t2 t3 by simp
qed

end
